theory Spec2Isabelle
  imports Main
begin

section \<open>Python values used by the script\<close>

text \<open>
  The script (\<^verbatim>\<open>src/main.py\<close>) exports the result of a Trino query to a Google Sheet.
  Exceptions are values: a function that can raise returns \<open>pyexn + 'a\<close>, with \<open>Inl\<close>
  the exception.  Every exception carries the text that \<^verbatim>\<open>str(e)\<close> gives; an
  \<^verbatim>\<open>HttpError\<close> also carries \<^verbatim>\<open>e.resp.status\<close>.
\<close>

datatype pyexn =
    HttpError nat string
  | RuntimeError string
  | ValueError string
  | TypeError string
  | AttributeError string
  | UnicodeDecodeError string
  | OtherException string

fun str_exn :: "pyexn \<Rightarrow> string" where
  "str_exn (HttpError status msg) = msg"
| "str_exn (RuntimeError msg) = msg"
| "str_exn (ValueError msg) = msg"
| "str_exn (TypeError msg) = msg"
| "str_exn (AttributeError msg) = msg"
| "str_exn (UnicodeDecodeError msg) = msg"
| "str_exn (OtherException msg) = msg"

text \<open>\<^verbatim>\<open>sep.join(xs)\<close> on a list of strings.\<close>

fun join :: "string \<Rightarrow> string list \<Rightarrow> string" where
  "join sep [] = []"
| "join sep [x] = x"
| "join sep (x # y # ys) = x @ sep @ join sep (y # ys)"

text \<open>\<^verbatim>\<open>str(n)\<close> for an integer: decimal digits, a minus sign when negative.\<close>

definition digit_char :: "nat \<Rightarrow> char" where
  "digit_char d = ''0123456789'' ! d"

function show_nat :: "nat \<Rightarrow> string" where
  "show_nat n = (if n < 10 then [digit_char n] else show_nat (n div 10) @ [digit_char (n mod 10)])"
  by pat_completeness auto
termination
  by (relation "measure id") auto

declare show_nat.simps [simp del]

definition show_int :: "int \<Rightarrow> string" where
  "show_int i = (if i < 0 then CHR ''-'' # show_nat (nat (- i)) else show_nat (nat i))"

section \<open>Configuration\<close>

text \<open>
  \<^verbatim>\<open>load_config\<close> (lines 31-65).  The process environment, read after
  \<^verbatim>\<open>load_dotenv()\<close> has merged the \<^verbatim>\<open>.env\<close> file into it, is a map from names to
  values; \<^verbatim>\<open>os.getenv(v)\<close> is the lookup, \<open>None\<close> when the variable is unset.  Python's
  built-in \<^verbatim>\<open>int\<close> is not code of the script: it is the parameter \<open>py_int\<close>, which
  gives the integer or the exception \<^verbatim>\<open>int\<close> raises on what \<^verbatim>\<open>os.getenv\<close> returned.
\<close>

type_synonym environ = "string \<rightharpoonup> string"

definition required_vars :: "string list" where
  "required_vars =
     [''TRINO_HOST'', ''TRINO_PORT'', ''TRINO_USER'', ''TRINO_CATALOG'', ''TRINO_SCHEMA'',
      ''GOOGLE_CLIENT_SECRET_FILE'', ''TOKEN_PATH'', ''DRIVE_FOLDER_ID'']"

record trino_config =
  host :: "string option"
  port :: int
  user :: "string option"
  password :: "string option"
  catalog :: "string option"
  schema :: "string option"

record google_config =
  client_secret_file :: "string option"
  token_path :: "string option"
  drive_folder_id :: "string option"

record config =
  trino :: trino_config
  google :: google_config

text \<open>\<^verbatim>\<open>not os.getenv(var)\<close>: true for an unset variable and for the empty string.\<close>

definition falsy_env :: "environ \<Rightarrow> string \<Rightarrow> bool" where
  "falsy_env env var = (case env var of None \<Rightarrow> True | Some v \<Rightarrow> v = [])"

definition missing_vars :: "environ \<Rightarrow> string list" where
  "missing_vars env = filter (falsy_env env) required_vars"

definition load_config :: "(string option \<Rightarrow> pyexn + int) \<Rightarrow> environ \<Rightarrow> pyexn + config" where
  "load_config py_int env =
     (if missing_vars env \<noteq> [] then
        Inl (ValueError (''Missing required environment variables: '' @ join '', '' (missing_vars env)))
      else
        (case py_int (env ''TRINO_PORT'') of
           Inl e \<Rightarrow> Inl e
         | Inr n \<Rightarrow>
             Inr \<lparr> trino = \<lparr> host = env ''TRINO_HOST'', port = n, user = env ''TRINO_USER'',
                              password = env ''TRINO_PASSWORD'', catalog = env ''TRINO_CATALOG'',
                              schema = env ''TRINO_SCHEMA'' \<rparr>,
                   google = \<lparr> client_secret_file = env ''GOOGLE_CLIENT_SECRET_FILE'',
                               token_path = env ''TOKEN_PATH'',
                               drive_folder_id = env ''DRIVE_FOLDER_ID'' \<rparr> \<rparr>))"

text \<open>An environment in which the eight checked variables are set and the password is not.\<close>

definition env_no_password :: environ where
  "env_no_password =
     [''TRINO_HOST'' \<mapsto> ''trino.example.org'', ''TRINO_PORT'' \<mapsto> ''8443'',
      ''TRINO_USER'' \<mapsto> ''analyst'', ''TRINO_CATALOG'' \<mapsto> ''hive'',
      ''TRINO_SCHEMA'' \<mapsto> ''default'', ''GOOGLE_CLIENT_SECRET_FILE'' \<mapsto> ''client.json'',
      ''TOKEN_PATH'' \<mapsto> ''token.json'', ''DRIVE_FOLDER_ID'' \<mapsto> ''folder-1'']"

text \<open>\<^verbatim>\<open>int\<close> on the one text the example needs; any other argument is refused.\<close>

definition int_8443 :: "string option \<Rightarrow> pyexn + int" where
  "int_8443 s = (if s = Some ''8443'' then Inr 8443 else Inl (ValueError ''invalid literal for int()''))"

section \<open>Tables\<close>

text \<open>
  A cell of a pandas table is a Python object.  The script never computes with a cell: it
  only asks pandas whether it is null, asks the JSON encoder whether it can be encoded, and
  converts it with \<^verbatim>\<open>astype(str)\<close>.  So a float is carried by its \<^verbatim>\<open>repr\<close> (\<open>''nan''\<close>
  is the not-a-number value), a \<^verbatim>\<open>Timestamp\<close> by the text pandas prints for it, a
  \<^verbatim>\<open>bytes\<close> object by what decoding it as UTF-8 gives (the text, or the message of the
  \<^verbatim>\<open>UnicodeDecodeError\<close>), and any other object (\<^verbatim>\<open>Decimal\<close>, \<^verbatim>\<open>date\<close>, a list, ...)
  by the name of its type, by whether the JSON encoder accepts it and by its \<^verbatim>\<open>str\<close>.
\<close>

datatype cell =
    PNone
  | PNA
  | PNaT
  | PFloat string
  | PBool bool
  | PInt int
  | PStr string
  | PBytes "string + string"
  | PTimestamp string
  | PObject string bool string

text \<open>
  The column dtypes of the model: timezone-naive \<^verbatim>\<open>datetime64[ns]\<close>, \<^verbatim>\<open>float64\<close>,
  \<^verbatim>\<open>int64\<close>, \<^verbatim>\<open>bool\<close> and \<^verbatim>\<open>object\<close>.  A \<^verbatim>\<open>float64\<close> column holds floats, its nulls
  are not-a-number values; an \<^verbatim>\<open>int64\<close> column holds integers and a \<^verbatim>\<open>bool\<close> column
  booleans, without nulls; a datetime column holds timestamps and \<^verbatim>\<open>NaT\<close>; an
  \<^verbatim>\<open>object\<close> column holds any objects.  The behaviour modelled is that of pandas 2.
\<close>

datatype dtype = Datetime64 | Float64 | Int64 | Bool | Object

record column =
  col_name :: string
  col_dtype :: dtype
  col_cells :: "cell list"

text \<open>
  A \<^verbatim>\<open>DataFrame\<close>: the length of its index and its columns, in order.  Every column of
  a table has as many cells as the index.  Labels may repeat.
\<close>

record dataframe =
  nrows :: nat
  columns :: "column list"

text \<open>
  An element of \<^verbatim>\<open>df.values.tolist()\<close>: a cell as it is, or the float that numpy's
  conversion of an \<^verbatim>\<open>int64\<close> to \<^verbatim>\<open>float64\<close> gives (the nearest float, which differs
  from the integer beyond 53 bits).
\<close>

datatype pyvalue = Obj cell | FloatOfInt int

text \<open>
  \<^verbatim>\<open>df.values\<close> is one array for the whole table.  When every column is \<^verbatim>\<open>int64\<close> or
  \<^verbatim>\<open>float64\<close> and one at least is \<^verbatim>\<open>float64\<close>, the array is \<^verbatim>\<open>float64\<close> and the
  integers are converted; with a column of any other dtype it is an array of objects and
  the cells are kept.
\<close>

definition upcasts :: "dataframe \<Rightarrow> bool" where
  "upcasts f =
     (list_all (\<lambda>c. col_dtype c \<in> {Int64, Float64}) (columns f)
      \<and> list_ex (\<lambda>c. col_dtype c = Float64) (columns f))"

fun to_value :: "bool \<Rightarrow> cell \<Rightarrow> pyvalue" where
  "to_value up (PInt i) = (if up then FloatOfInt i else Obj (PInt i))"
| "to_value up x = Obj x"

text \<open>\<^verbatim>\<open>df.values.tolist()\<close>: the rows; \<^verbatim>\<open>df.columns.tolist()\<close>: the labels.\<close>

definition frame_values :: "dataframe \<Rightarrow> pyvalue list list" where
  "frame_values f =
     map (\<lambda>i. map (\<lambda>c. to_value (upcasts f) (col_cells c ! i)) (columns f)) [0..<nrows f]"

definition frame_header :: "dataframe \<Rightarrow> pyvalue list" where
  "frame_header f = map (\<lambda>c. Obj (PStr (col_name c))) (columns f)"

subsection \<open>pandas and json operations the script calls\<close>

text \<open>
  The text \<^verbatim>\<open>astype(str)\<close> gives for one cell: \<^verbatim>\<open>str(x)\<close>, nulls included, but for a
  \<^verbatim>\<open>bytes\<close> object, which is decoded as UTF-8 and raises \<^verbatim>\<open>UnicodeDecodeError\<close> when
  it cannot be.
\<close>

fun py_str :: "cell \<Rightarrow> pyexn + string" where
  "py_str PNone = Inr ''None''"
| "py_str PNA = Inr ''<NA>''"
| "py_str PNaT = Inr ''NaT''"
| "py_str (PFloat r) = Inr r"
| "py_str (PBool b) = Inr (if b then ''True'' else ''False'')"
| "py_str (PInt i) = Inr (show_int i)"
| "py_str (PStr s) = Inr s"
| "py_str (PBytes (Inl msg)) = Inl (UnicodeDecodeError msg)"
| "py_str (PBytes (Inr s)) = Inr s"
| "py_str (PTimestamp t) = Inr t"
| "py_str (PObject tname ok s) = Inr s"

fun str_cells :: "cell list \<Rightarrow> pyexn + cell list" where
  "str_cells [] = Inr []"
| "str_cells (x # xs) =
     (case py_str x of
        Inl e \<Rightarrow> Inl e
      | Inr s \<Rightarrow> (case str_cells xs of Inl e \<Rightarrow> Inl e | Inr ys \<Rightarrow> Inr (PStr s # ys)))"

text \<open>\<^verbatim>\<open>series.astype(str)\<close>: a column of strings, of dtype \<^verbatim>\<open>object\<close>.\<close>

definition astype_str :: "column \<Rightarrow> pyexn + column" where
  "astype_str c =
     (case str_cells (col_cells c) of
        Inl e \<Rightarrow> Inl e
      | Inr ys \<Rightarrow> Inr (c\<lparr> col_dtype := Object, col_cells := ys \<rparr>))"

text \<open>
  \<^verbatim>\<open>df[col].astype(str)\<close> assigned to \<^verbatim>\<open>df[col]\<close>: with a label that names one column,
  that column is converted; with a repeated label \<^verbatim>\<open>df[col]\<close> is the table of the columns
  that carry it, and all of them are.  The columns are converted in order, and nothing is
  assigned when one of them raises.
\<close>

fun astype_str_where :: "(column \<Rightarrow> bool) \<Rightarrow> column list \<Rightarrow> pyexn + column list" where
  "astype_str_where sel [] = Inr []"
| "astype_str_where sel (c # cs) =
     (case (if sel c then astype_str c else Inr c) of
        Inl e \<Rightarrow> Inl e
      | Inr c' \<Rightarrow>
          (case astype_str_where sel cs of Inl e \<Rightarrow> Inl e | Inr cs' \<Rightarrow> Inr (c' # cs')))"

text \<open>\<^verbatim>\<open>pd.notnull\<close> on one cell.\<close>

fun notnull :: "cell \<Rightarrow> bool" where
  "notnull PNone = False"
| "notnull PNA = False"
| "notnull PNaT = False"
| "notnull (PFloat r) = (r \<noteq> ''nan'')"
| "notnull c = True"

text \<open>
  The JSON encoder.  The document it writes is kept as a tree, not as text.
  \<^verbatim>\<open>json.dumps\<close> (with its default \<^verbatim>\<open>allow_nan=True\<close>, so that not-a-number is
  written) raises \<^verbatim>\<open>TypeError\<close> on an object that is neither \<^verbatim>\<open>None\<close>, a bool, an int,
  a float, a string nor a container of such.
\<close>

datatype json =
    JNull
  | JBool bool
  | JInt int
  | JFloat string
  | JFloatOfInt int
  | JStr string
  | JOpaque string string

definition not_serializable :: "string \<Rightarrow> pyexn" where
  "not_serializable tname = TypeError (''Object of type '' @ tname @ '' is not JSON serializable'')"

fun dumps_cell :: "cell \<Rightarrow> pyexn + json" where
  "dumps_cell PNone = Inr JNull"
| "dumps_cell PNA = Inl (not_serializable ''NAType'')"
| "dumps_cell PNaT = Inl (not_serializable ''NaTType'')"
| "dumps_cell (PFloat r) = Inr (JFloat r)"
| "dumps_cell (PBool b) = Inr (JBool b)"
| "dumps_cell (PInt i) = Inr (JInt i)"
| "dumps_cell (PStr s) = Inr (JStr s)"
| "dumps_cell (PBytes b) = Inl (not_serializable ''bytes'')"
| "dumps_cell (PTimestamp t) = Inl (not_serializable ''Timestamp'')"
| "dumps_cell (PObject tname ok s) = (if ok then Inr (JOpaque tname s) else Inl (not_serializable tname))"

fun dumps_value :: "pyvalue \<Rightarrow> pyexn + json" where
  "dumps_value (Obj x) = dumps_cell x"
| "dumps_value (FloatOfInt i) = Inr (JFloatOfInt i)"

text \<open>A list is encoded element by element; the first element that raises ends it.\<close>

fun dumps_all :: "('a \<Rightarrow> pyexn + json) \<Rightarrow> 'a list \<Rightarrow> pyexn + json list" where
  "dumps_all enc [] = Inr []"
| "dumps_all enc (x # xs) =
     (case enc x of
        Inl e \<Rightarrow> Inl e
      | Inr j \<Rightarrow> (case dumps_all enc xs of Inl e \<Rightarrow> Inl e | Inr js \<Rightarrow> Inr (j # js)))"

text \<open>\<^verbatim>\<open>json.dumps(series.tolist())\<close> and \<^verbatim>\<open>json.dumps(df.values.tolist())\<close>.\<close>

definition dumps_list :: "cell list \<Rightarrow> pyexn + json list" where
  "dumps_list = dumps_all dumps_cell"

fun dumps_rows :: "pyvalue list list \<Rightarrow> pyexn + json list list" where
  "dumps_rows [] = Inr []"
| "dumps_rows (r # rs) =
     (case dumps_all dumps_value r of
        Inl e \<Rightarrow> Inl e
      | Inr j \<Rightarrow> (case dumps_rows rs of Inl e \<Rightarrow> Inl e | Inr js \<Rightarrow> Inr (j # js)))"

text \<open>\<^verbatim>\<open>json.loads\<close> on the document of a table.\<close>

fun loads_value :: "json \<Rightarrow> pyvalue" where
  "loads_value JNull = Obj PNone"
| "loads_value (JBool b) = Obj (PBool b)"
| "loads_value (JInt i) = Obj (PInt i)"
| "loads_value (JFloat r) = Obj (PFloat r)"
| "loads_value (JFloatOfInt i) = FloatOfInt i"
| "loads_value (JStr s) = Obj (PStr s)"
| "loads_value (JOpaque tname s) = Obj (PObject tname True s)"

definition loads_rows :: "json list list \<Rightarrow> pyvalue list list" where
  "loads_rows = map (map loads_value)"

section \<open>The world the script acts on\<close>

text \<open>
  The state threaded through the script: the Python heap of \<^verbatim>\<open>DataFrame\<close> objects (an
  object is its index in \<open>frames\<close>), the requests sent to the Google services so far, the
  arguments of \<^verbatim>\<open>time.sleep\<close> so far, and the rows of \<^verbatim>\<open>Sheet1\<close> of every spreadsheet.
  Calls of \<^verbatim>\<open>logger\<close> change nothing the properties speak of and are left out, and
  \<^verbatim>\<open>build(...)\<close> constructs a client object without a request of its own.
\<close>

datatype a1_range = Sheet1_A nat

fun range_text :: "a1_range \<Rightarrow> string" where
  "range_text (Sheet1_A n) = ''Sheet1!A'' @ show_nat n"

datatype request =
    SpreadsheetsCreate string
  | ValuesUpdate string a1_range "pyvalue list list"
  | ValuesAppend string a1_range "pyvalue list list"
  | FilesGet string
  | FilesUpdate string string string

record reply =
  spreadsheetId :: "string option"
  parents :: "string list option"

datatype response = Replies reply | Raises pyexn

record world =
  frames :: "dataframe list"
  requests :: "request list"
  sleeps :: "nat list"
  sheets :: "string \<Rightarrow> pyvalue list list"

text \<open>
  Modelled from the spec: the Google Sheets service, which is not part of the repository.
  \<^verbatim>\<open>values.update\<close> is a ``range-qualified overwrite'': the rows sent replace the rows of
  the sheet from the row of the range on, and rows beyond them stay.  \<^verbatim>\<open>values.append\<close>
  is a ``range-qualified insertion'': the rows sent are ``appended after previously written
  content''.  The other requests leave the cells alone.
\<close>

definition overwrite_rows :: "nat \<Rightarrow> 'a list list \<Rightarrow> 'a list list \<Rightarrow> 'a list list" where
  "overwrite_rows k rows old =
     (let base = old @ replicate (k - length old) []
      in take k base @ rows @ drop (k + length rows) base)"

fun sink_effect :: "request \<Rightarrow> (string \<Rightarrow> pyvalue list list) \<Rightarrow> (string \<Rightarrow> pyvalue list list)" where
  "sink_effect (ValuesUpdate sid (Sheet1_A n) rows) sh = sh(sid := overwrite_rows (n - 1) rows (sh sid))"
| "sink_effect (ValuesAppend sid r rows) sh = sh(sid := sh sid @ rows)"
| "sink_effect req sh = sh"

text \<open>
  \<^verbatim>\<open>request.execute()\<close>.  The services are a parameter \<open>srv\<close>: the answer to the
  \<open>i\<close>-th request since the start, a reply or an exception.  A request answered by an
  exception leaves the sheet as it was.
\<close>

definition execute :: "(nat \<Rightarrow> response) \<Rightarrow> request \<Rightarrow> world \<Rightarrow> (pyexn + reply) \<times> world" where
  "execute srv req w =
     (let w1 = w\<lparr> requests := requests w @ [req] \<rparr>
      in case srv (length (requests w)) of
           Replies r \<Rightarrow> (Inr r, w1\<lparr> sheets := sink_effect req (sheets w1) \<rparr>)
         | Raises e \<Rightarrow> (Inl e, w1))"

definition new_frame :: "dataframe \<Rightarrow> world \<Rightarrow> nat \<times> world" where
  "new_frame f w = (length (frames w), w\<lparr> frames := frames w @ [f] \<rparr>)"

definition set_frame :: "nat \<Rightarrow> dataframe \<Rightarrow> world \<Rightarrow> world" where
  "set_frame a f w = w\<lparr> frames := (frames w)[a := f] \<rparr>"

text \<open>A world with no table, no request sent, no wait and empty sheets.\<close>

definition empty_world :: world where
  "empty_world = \<lparr> frames = [], requests = [], sleeps = [], sheets = (\<lambda>sid. []) \<rparr>"

section \<open>Serialization normalizer\<close>

text \<open>
  \<^verbatim>\<open>prepare_dataframe_for_sheets\<close> (lines 147-190), step by step.  A loop that assigns
  to \<^verbatim>\<open>df_copy\<close> is a function of the table \<^verbatim>\<open>df_copy\<close> names: it gives the exception
  that ended the loop, if any, and the table as the loop left it.

  Lines 164-166: the labels \<^verbatim>\<open>select_dtypes\<close> returns for
  \<^verbatim>\<open>['datetime', 'datetime64', 'datetime64[ns]']\<close> are those of the timezone-naive
  datetime columns.
\<close>

definition date_cols :: "dataframe \<Rightarrow> string list" where
  "date_cols f = map col_name (filter (\<lambda>c. col_dtype c = Datetime64) (columns f))"

text \<open>
  The loop \<^verbatim>\<open>for col in cols: df_copy[col] = df_copy[col].astype(str)\<close> of lines 165-166
  and of lines 187-188.
\<close>

fun astype_str_loop :: "string list \<Rightarrow> dataframe \<Rightarrow> pyexn option \<times> dataframe" where
  "astype_str_loop [] f = (None, f)"
| "astype_str_loop (col # rest) f =
     (case astype_str_where (\<lambda>c. col_name c = col) (columns f) of
        Inl e \<Rightarrow> (Some e, f)
      | Inr cs \<Rightarrow> astype_str_loop rest (f\<lparr> columns := cs \<rparr>))"

text \<open>
  Line 169: \<^verbatim>\<open>replace({pd.NA: None, pd.NaT: None})\<close>, a new table.  \<^verbatim>\<open>None\<close> can stand in
  an \<^verbatim>\<open>object\<close> column only; the columns of the other dtypes are left as they are.
\<close>

fun replace_na_cell :: "cell \<Rightarrow> cell" where
  "replace_na_cell PNA = PNone"
| "replace_na_cell PNaT = PNone"
| "replace_na_cell c = c"

definition map_object_cells :: "(cell \<Rightarrow> cell) \<Rightarrow> dataframe \<Rightarrow> dataframe" where
  "map_object_cells g f =
     f\<lparr> columns := map (\<lambda>c. if col_dtype c = Object then c\<lparr> col_cells := map g (col_cells c) \<rparr> else c)
                      (columns f) \<rparr>"

definition replace_na :: "dataframe \<Rightarrow> dataframe" where
  "replace_na = map_object_cells replace_na_cell"

text \<open>
  Line 170: \<^verbatim>\<open>df_copy.where(pd.notnull(df_copy), None)\<close>, a new table.  In an
  \<^verbatim>\<open>object\<close> column every null becomes \<^verbatim>\<open>None\<close>.  In a \<^verbatim>\<open>float64\<close> column pandas
  reads the \<^verbatim>\<open>None\<close> as not-a-number, so a null stays what it was.
\<close>

definition where_notnull :: "dataframe \<Rightarrow> dataframe" where
  "where_notnull = map_object_cells (\<lambda>x. if notnull x then x else PNone)"

text \<open>
  Lines 173-179, the loop over the labels.  With a label that names one column,
  \<^verbatim>\<open>df_copy[col]\<close> is that column: when its trial encoding raises \<^verbatim>\<open>TypeError\<close> it is
  replaced by its \<^verbatim>\<open>astype(str)\<close>, and an exception of that conversion is not caught.
  With a repeated label \<^verbatim>\<open>df_copy[col]\<close> is a table, which has no \<^verbatim>\<open>tolist\<close>.
\<close>

definition no_tolist :: pyexn where
  "no_tolist = AttributeError (CHR 0x27 # ''DataFrame'' @ [CHR 0x27] @ '' object has no attribute ''
                                 @ [CHR 0x27] @ ''tolist'' @ [CHR 0x27])"

fun fix_loop :: "string list \<Rightarrow> dataframe \<Rightarrow> pyexn option \<times> dataframe" where
  "fix_loop [] f = (None, f)"
| "fix_loop (col # rest) f =
     (case filter (\<lambda>c. col_name c = col) (columns f) of
        [c] \<Rightarrow>
          (case dumps_list (col_cells c) of
             Inr j \<Rightarrow> fix_loop rest f
           | Inl (TypeError msg) \<Rightarrow>
               (case astype_str c of
                  Inl e \<Rightarrow> (Some e, f)
                | Inr c' \<Rightarrow>
                    fix_loop rest
                      (f\<lparr> columns := map (\<lambda>d. if col_name d = col then c' else d) (columns f) \<rparr>))
           | Inl e \<Rightarrow> (Some e, f))
      | cs \<Rightarrow> (Some no_tolist, f))"

text \<open>Lines 182-188: the trial encoding of the whole table, and the last resort.\<close>

definition last_resort :: "dataframe \<Rightarrow> pyexn option \<times> dataframe" where
  "last_resort f =
     (case dumps_rows (frame_values f) of
        Inr j \<Rightarrow> (None, f)
      | Inl (TypeError msg) \<Rightarrow> astype_str_loop (map col_name (columns f)) f
      | Inl e \<Rightarrow> (Some e, f))"

text \<open>
  The function itself.  \<^verbatim>\<open>df.copy(deep=True)\<close>, \<^verbatim>\<open>replace\<close> and \<^verbatim>\<open>where\<close> each create
  an object; the assignments \<^verbatim>\<open>df_copy[col] = ...\<close> update the object \<^verbatim>\<open>df_copy\<close> names
  at that point.  The result is the address of the returned table, or the exception raised.
\<close>

definition prepare_dataframe_for_sheets :: "nat \<Rightarrow> world \<Rightarrow> (pyexn + nat) \<times> world" where
  "prepare_dataframe_for_sheets df w =
     (let (df_copy, w1) = new_frame (frames w ! df) w
      in case astype_str_loop (date_cols (frames w1 ! df_copy)) (frames w1 ! df_copy) of
           (Some e, g) \<Rightarrow> (Inl e, set_frame df_copy g w1)
         | (None, g) \<Rightarrow>
            (let w2 = set_frame df_copy g w1;
                 (df_copy, w3) = new_frame (replace_na (frames w2 ! df_copy)) w2;
                 (df_copy, w4) = new_frame (where_notnull (frames w3 ! df_copy)) w3
             in case fix_loop (map col_name (columns (frames w4 ! df_copy))) (frames w4 ! df_copy) of
                  (Some e, g) \<Rightarrow> (Inl e, set_frame df_copy g w4)
                | (None, g) \<Rightarrow>
                   (let w5 = set_frame df_copy g w4
                    in case last_resort (frames w5 ! df_copy) of
                         (Some e, g) \<Rightarrow> (Inl e, set_frame df_copy g w5)
                       | (None, g) \<Rightarrow> (Inr df_copy, set_frame df_copy g w5))))"

text \<open>The table the function computes from the table it is given, or the exception it raises.\<close>

definition prepared :: "dataframe \<Rightarrow> pyexn + dataframe" where
  "prepared f =
     (case astype_str_loop (date_cols f) f of
        (Some e, g) \<Rightarrow> Inl e
      | (None, g) \<Rightarrow>
         (case fix_loop (map col_name (columns (where_notnull (replace_na g))))
                 (where_notnull (replace_na g)) of
            (Some e, h) \<Rightarrow> Inl e
          | (None, h) \<Rightarrow>
             (case last_resort h of
                (Some e, k) \<Rightarrow> Inl e
              | (None, k) \<Rightarrow> Inr k)))"

section \<open>Resilient API call\<close>

definition MAX_RETRIES :: nat where
  "MAX_RETRIES = 5"

definition INITIAL_RETRY_DELAY :: nat where
  "INITIAL_RETRY_DELAY = 1"

definition retryable_status :: "nat \<Rightarrow> bool" where
  "retryable_status status = (status \<in> set [429, 500, 502, 503, 504])"

text \<open>
  The loop \<^verbatim>\<open>for retry in range(MAX_RETRIES): try: ... except HttpError ... except
  Exception ...\<close> stands three times in the source (lines 200-236, 265-305 and 308-335,
  349-384) with the same text but for the body of the \<^verbatim>\<open>try\<close> and the operation named
  in the messages; these are the parameters \<open>attempt\<close> and \<open>what\<close>.  The last branch is the
  \<^verbatim>\<open>raise\<close> after the loop.
\<close>

function retry_loop ::
  "string \<Rightarrow> (world \<Rightarrow> (pyexn + 'a) \<times> world) \<Rightarrow> nat \<Rightarrow> world \<Rightarrow> (pyexn + 'a) \<times> world" where
  "retry_loop what attempt retry w =
     (if retry < MAX_RETRIES then
        (case attempt w of
           (Inr v, w') \<Rightarrow> (Inr v, w')
         | (Inl e, w') \<Rightarrow>
             (case e of
                HttpError status msg \<Rightarrow>
                  if retry \<ge> MAX_RETRIES - 1 \<or> \<not> retryable_status status
                  then (Inl (RuntimeError (what @ '': '' @ str_exn e)), w')
                  else retry_loop what attempt (retry + 1)
                         (w'\<lparr> sleeps := sleeps w' @ [INITIAL_RETRY_DELAY * 2 ^ retry] \<rparr>)
              | _ \<Rightarrow> (Inl (RuntimeError (what @ '': '' @ str_exn e)), w')))
      else (Inl (RuntimeError (what @ '' after retries'')), w))"
  by pat_completeness auto
termination
  by (relation "measure (\<lambda>(what, attempt, retry, w). MAX_RETRIES - retry)") auto

declare retry_loop.simps [simp del]

text \<open>The test of line 223 on an exception: an \<^verbatim>\<open>HttpError\<close> with a transient status.\<close>

fun retryable_exn :: "pyexn \<Rightarrow> bool" where
  "retryable_exn (HttpError status msg) = retryable_status status"
| "retryable_exn e = False"

text \<open>\<^verbatim>\<open>create_google_sheet\<close> (lines 192-236).\<close>

definition create_attempt :: "(nat \<Rightarrow> response) \<Rightarrow> string \<Rightarrow> world \<Rightarrow> (pyexn + string option) \<times> world" where
  "create_attempt srv title w =
     (case execute srv (SpreadsheetsCreate title) w of
        (Inl e, w') \<Rightarrow> (Inl e, w')
      | (Inr response, w') \<Rightarrow> (Inr (spreadsheetId response), w'))"

definition create_google_sheet :: "(nat \<Rightarrow> response) \<Rightarrow> string \<Rightarrow> world \<Rightarrow> (pyexn + string option) \<times> world" where
  "create_google_sheet srv title w =
     retry_loop ''Failed to create Google Sheet'' (create_attempt srv title) 0 w"

text \<open>\<^verbatim>\<open>move_sheet_to_folder\<close> (lines 337-384): two requests in each attempt.\<close>

definition move_attempt :: "(nat \<Rightarrow> response) \<Rightarrow> string \<Rightarrow> string \<Rightarrow> world \<Rightarrow> (pyexn + unit) \<times> world" where
  "move_attempt srv file_id folder_id w =
     (case execute srv (FilesGet file_id) w of
        (Inl e, w') \<Rightarrow> (Inl e, w')
      | (Inr file, w') \<Rightarrow>
          (let previous_parents = join '','' (case parents file of None \<Rightarrow> [] | Some ps \<Rightarrow> ps)
           in case execute srv (FilesUpdate file_id folder_id previous_parents) w' of
                (Inl e, w'') \<Rightarrow> (Inl e, w'')
              | (Inr r, w'') \<Rightarrow> (Inr (), w'')))"

definition move_sheet_to_folder :: "(nat \<Rightarrow> response) \<Rightarrow> string \<Rightarrow> string \<Rightarrow> world \<Rightarrow> (pyexn + unit) \<times> world" where
  "move_sheet_to_folder srv file_id folder_id w =
     retry_loop ''Failed to move Google Sheet to folder'' (move_attempt srv file_id folder_id) 0 w"

section \<open>Batched sink writer\<close>

definition BATCH_SIZE :: nat where
  "BATCH_SIZE = 5000"

text \<open>\<^verbatim>\<open>range(start, stop, step)\<close> for a step that is not negative; Python refuses a zero step.\<close>

function py_range :: "nat \<Rightarrow> nat \<Rightarrow> nat \<Rightarrow> nat list" where
  "py_range start stop step =
     (if step = 0 \<or> stop \<le> start then [] else start # py_range (start + step) stop step)"
  by pat_completeness auto
termination
  by (relation "measure (\<lambda>(start, stop, step). stop - start)") auto

declare py_range.simps [simp del]

text \<open>Line 262: the batches; \<^verbatim>\<open>values[i:i + BATCH_SIZE]\<close> is a \<open>take\<close> of a \<open>drop\<close>.\<close>

definition make_batches :: "'a list \<Rightarrow> 'a list list" where
  "make_batches vals = map (\<lambda>i. take BATCH_SIZE (drop i vals)) (py_range 0 (length vals) BATCH_SIZE)"

definition enumerate :: "'a list \<Rightarrow> (nat \<times> 'a) list" where
  "enumerate xs = zip [0..<length xs] xs"

text \<open>Lines 272-289: the request for batch \<open>i\<close>.\<close>

definition batch_request :: "string \<Rightarrow> nat \<times> pyvalue list list \<Rightarrow> request" where
  "batch_request spreadsheet_id ib =
     (case ib of (i, batch) \<Rightarrow>
        (let start_range = Sheet1_A (if i = 0 then 1 else i * BATCH_SIZE + 1)
         in if i = 0 then ValuesUpdate spreadsheet_id start_range batch
            else ValuesAppend spreadsheet_id start_range batch))"

text \<open>Lines 271-291: the loop over the batches; an exception leaves it at once.\<close>

fun process_batches ::
  "(nat \<Rightarrow> response) \<Rightarrow> string \<Rightarrow> (nat \<times> pyvalue list list) list \<Rightarrow> world \<Rightarrow> (pyexn + unit) \<times> world" where
  "process_batches srv spreadsheet_id [] w = (Inr (), w)"
| "process_batches srv spreadsheet_id (ib # rest) w =
     (case execute srv (batch_request spreadsheet_id ib) w of
        (Inl e, w') \<Rightarrow> (Inl e, w')
      | (Inr r, w') \<Rightarrow> process_batches srv spreadsheet_id rest w')"

definition single_write_attempt ::
  "(nat \<Rightarrow> response) \<Rightarrow> string \<Rightarrow> pyvalue list list \<Rightarrow> world \<Rightarrow> (pyexn + unit) \<times> world" where
  "single_write_attempt srv spreadsheet_id vals w =
     (case execute srv (ValuesUpdate spreadsheet_id (Sheet1_A 1) vals) w of
        (Inl e, w') \<Rightarrow> (Inl e, w')
      | (Inr r, w') \<Rightarrow> (Inr (), w'))"

text \<open>Line 255: the header row followed by the data rows.\<close>

definition table_values :: "dataframe \<Rightarrow> pyvalue list list" where
  "table_values f = frame_header f # frame_values f"

text \<open>
  \<^verbatim>\<open>write_dataframe_to_sheet\<close> (lines 238-335).  The call of
  \<^verbatim>\<open>prepare_dataframe_for_sheets\<close> stands before the \<^verbatim>\<open>try\<close>: what it raises leaves
  the function as it is.
\<close>

definition write_dataframe_to_sheet ::
  "(nat \<Rightarrow> response) \<Rightarrow> string \<Rightarrow> nat \<Rightarrow> world \<Rightarrow> (pyexn + unit) \<times> world" where
  "write_dataframe_to_sheet srv spreadsheet_id df w =
     (case prepare_dataframe_for_sheets df w of
        (Inl e, w1) \<Rightarrow> (Inl e, w1)
      | (Inr df_prepared, w1) \<Rightarrow>
         (let vals = table_values (frames w1 ! df_prepared)
          in if length vals > BATCH_SIZE then
               (let batches = make_batches vals
                in retry_loop ''Failed to write data to Google Sheet''
                     (process_batches srv spreadsheet_id (enumerate batches)) 0 w1)
             else
               retry_loop ''Failed to write data to Google Sheet''
                 (single_write_attempt srv spreadsheet_id vals) 0 w1))"

text \<open>The rows a write request carries.\<close>

fun payload :: "request \<Rightarrow> pyvalue list list" where
  "payload (ValuesUpdate sid r rows) = rows"
| "payload (ValuesAppend sid r rows) = rows"
| "payload req = []"

section \<open>Concrete inputs\<close>

text \<open>Services: four rate-limit answers then a reply; a permanent error; a transient error for ever.\<close>

definition srv_rate_limited :: "nat \<Rightarrow> response" where
  "srv_rate_limited i =
     (if i < 4 then Raises (HttpError 429 ''rate limit exceeded'')
      else Replies \<lparr> spreadsheetId = Some ''sheet-1'', parents = None \<rparr>)"

definition srv_not_found :: "nat \<Rightarrow> response" where
  "srv_not_found i = Raises (HttpError 404 ''not found'')"

definition srv_unavailable :: "nat \<Rightarrow> response" where
  "srv_unavailable i = Raises (HttpError 503 ''unavailable'')"

text \<open>
  A service that answers every \<^verbatim>\<open>files().get\<close> of \<^verbatim>\<open>move_sheet_to_folder\<close> and fails
  every \<^verbatim>\<open>files().update\<close> with status 503.
\<close>

definition srv_update_unavailable :: "nat \<Rightarrow> response" where
  "srv_update_unavailable i =
     (if even i then Replies \<lparr> spreadsheetId = None, parents = Some [''root''] \<rparr>
      else Raises (HttpError 503 ''unavailable''))"

text \<open>A service that answers every request with a reply.\<close>

definition srv_ok :: "nat \<Rightarrow> response" where
  "srv_ok i = Replies \<lparr> spreadsheetId = None, parents = None \<rparr>"

text \<open>A service whose answer to the third request is a status 503, and a reply otherwise.\<close>

definition srv_third_unavailable :: "nat \<Rightarrow> response" where
  "srv_third_unavailable i =
     (if i = 2 then Raises (HttpError 503 ''unavailable'')
      else Replies \<lparr> spreadsheetId = None, parents = None \<rparr>)"

text \<open>A table of one row: a null, a timestamp and an integer, each in a column of its own.\<close>

definition small_frame :: dataframe where
  "small_frame =
     \<lparr> nrows = 1,
       columns = [\<lparr> col_name = ''note'', col_dtype = Object, col_cells = [PNone] \<rparr>,
                  \<lparr> col_name = ''seen'', col_dtype = Datetime64, col_cells = [PTimestamp ''2024-01-02''] \<rparr>,
                  \<lparr> col_name = ''count'', col_dtype = Int64, col_cells = [PInt 42] \<rparr>] \<rparr>"

text \<open>A table of \<open>n\<close> rows with one integer column that numbers the rows.\<close>

definition big_frame :: "nat \<Rightarrow> dataframe" where
  "big_frame n =
     \<lparr> nrows = n,
       columns = [\<lparr> col_name = ''id'', col_dtype = Int64,
                     col_cells = map (\<lambda>i. PInt (int i)) [0..<n] \<rparr>] \<rparr>"

text \<open>
  A table as a query returns it, of two rows, the second all \<^verbatim>\<open>NULL\<close>s but for the count:
  a \<^verbatim>\<open>DOUBLE\<close> column (\<^verbatim>\<open>float64\<close>, the null is not-a-number), a \<^verbatim>\<open>DECIMAL\<close> column
  (\<^verbatim>\<open>Decimal\<close> objects and \<^verbatim>\<open>None\<close>), a timestamp column (the null is \<^verbatim>\<open>NaT\<close>) and an
  integer column.
\<close>

definition nulls_frame :: dataframe where
  "nulls_frame =
     \<lparr> nrows = 2,
       columns = [\<lparr> col_name = ''price'', col_dtype = Float64,
                     col_cells = [PFloat ''1.5'', PFloat ''nan''] \<rparr>,
                  \<lparr> col_name = ''amount'', col_dtype = Object,
                     col_cells = [PObject ''Decimal'' False ''2.5'', PNone] \<rparr>,
                  \<lparr> col_name = ''seen'', col_dtype = Datetime64,
                     col_cells = [PTimestamp ''2024-01-02'', PNaT] \<rparr>,
                  \<lparr> col_name = ''count'', col_dtype = Int64, col_cells = [PInt 42, PInt 7] \<rparr>] \<rparr>"

text \<open>
  A table with a \<^verbatim>\<open>VARBINARY\<close> column: one \<^verbatim>\<open>bytes\<close> object that is not UTF-8 (the byte
  \<^verbatim>\<open>0xff\<close>), with the message Python gives when it is decoded.
\<close>

definition cannot_decode_0xff :: string where
  "cannot_decode_0xff =
     CHR 0x27 # ''utf-8'' @ [CHR 0x27] @ '' codec can't decode byte 0xff in position 0: invalid start byte''"

definition bytes_frame :: dataframe where
  "bytes_frame =
     \<lparr> nrows = 1,
       columns = [\<lparr> col_name = ''payload'', col_dtype = Object,
                     col_cells = [PBytes (Inl cannot_decode_0xff)] \<rparr>] \<rparr>"

text \<open>A table with two columns that carry the same label, and a table of numbers only.\<close>

definition twin_frame :: dataframe where
  "twin_frame =
     \<lparr> nrows = 1,
       columns = [\<lparr> col_name = ''a'', col_dtype = Int64, col_cells = [PInt 1] \<rparr>,
                  \<lparr> col_name = ''a'', col_dtype = Int64, col_cells = [PInt 2] \<rparr>] \<rparr>"

definition numeric_frame :: dataframe where
  "numeric_frame =
     \<lparr> nrows = 1,
       columns = [\<lparr> col_name = ''n'', col_dtype = Int64, col_cells = [PInt 2] \<rparr>,
                  \<lparr> col_name = ''x'', col_dtype = Float64, col_cells = [PFloat ''0.5''] \<rparr>] \<rparr>"

text \<open>A world whose heap holds one table, at address 0.\<close>

definition world_with :: "dataframe \<Rightarrow> world" where
  "world_with f = empty_world\<lparr> frames := [f] \<rparr>"

text \<open>The requests of one pass over the batches of a table (lines 271-289).\<close>

definition batch_requests :: "string \<Rightarrow> pyvalue list list \<Rightarrow> request list" where
  "batch_requests spreadsheet_id vals = map (batch_request spreadsheet_id) (enumerate (make_batches vals))"

text \<open>Normalize a table, encode its rows, decode the document.\<close>

definition roundtrip :: "dataframe \<Rightarrow> pyexn + pyvalue list list" where
  "roundtrip f =
     (case prepared f of
        Inl e \<Rightarrow> Inl e
      | Inr g \<Rightarrow>
         (case dumps_rows (frame_values g) of
            Inl e \<Rightarrow> Inl e
          | Inr doc \<Rightarrow> Inr (loads_rows doc)))"

section \<open>Results about configuration\<close>

lemma missing_vars_Nil_iff:
  "missing_vars env = [] \<longleftrightarrow> (\<forall>v \<in> set required_vars. \<not> falsy_env env v)"
  by (simp add: missing_vars_def filter_empty_conv)

lemma missing_vars_env_no_password: "missing_vars env_no_password = []"
  by (simp add: missing_vars_def required_vars_def falsy_env_def env_no_password_def)

lemma falsy_env_iff: "falsy_env env v \<longleftrightarrow> env v = None \<or> env v = Some []"
  by (cases "env v") (simp_all add: falsy_env_def)

text \<open>
  Counterexample to claim C10 as stated.  The claim lists the warehouse credentials among the
  values that are all required.  \<^verbatim>\<open>TRINO_PASSWORD\<close> is read (line 56) but is not
  in \<^verbatim>\<open>required_vars\<close>: with the password unset and the eight checked variables
  set, \<^verbatim>\<open>load_config\<close> does not fail, it returns a configuration whose password
  is \<open>None\<close>.
\<close>

theorem load_config_password_optional:
  "load_config int_8443 env_no_password =
     Inr \<lparr> trino = \<lparr> host = Some ''trino.example.org'', port = 8443, user = Some ''analyst'',
                      password = None, catalog = Some ''hive'', schema = Some ''default'' \<rparr>,
           google = \<lparr> client_secret_file = Some ''client.json'', token_path = Some ''token.json'',
                       drive_folder_id = Some ''folder-1'' \<rparr> \<rparr>"
  by (simp add: load_config_def missing_vars_env_no_password)
     (simp add: env_no_password_def int_8443_def)

text \<open>
  Claim C10, amended.  The required values are the eight names of \<^verbatim>\<open>required_vars\<close>
  (host, port, user, catalog, schema, client-secret file, token path, folder identifier).
  Whenever one of them is unset, \<^verbatim>\<open>load_config\<close> raises a \<^verbatim>\<open>ValueError\<close>
  whose message lists every checked variable that is unset or empty, in the order of the
  list, and no other name.  When all eight are set to non-empty strings and the port text
  is an integer literal, it returns the assembled configuration; the password is taken as
  it is, \<open>None\<close> when unset.
\<close>

theorem load_config_required:
  "(\<forall>v \<in> set required_vars. env v = None \<longrightarrow>
       v \<in> set (missing_vars env) \<and>
       load_config py_int env =
         Inl (ValueError (''Missing required environment variables: '' @ join '', '' (missing_vars env))))
   \<and> set (missing_vars env) = {v \<in> set required_vars. env v = None \<or> env v = Some []}
   \<and> ((\<forall>v \<in> set required_vars. \<exists>s. env v = Some s \<and> s \<noteq> []) \<longrightarrow>
        (\<forall>n. py_int (env ''TRINO_PORT'') = Inr n \<longrightarrow>
          load_config py_int env =
            Inr \<lparr> trino = \<lparr> host = env ''TRINO_HOST'', port = n, user = env ''TRINO_USER'',
                             password = env ''TRINO_PASSWORD'', catalog = env ''TRINO_CATALOG'',
                             schema = env ''TRINO_SCHEMA'' \<rparr>,
                  google = \<lparr> client_secret_file = env ''GOOGLE_CLIENT_SECRET_FILE'',
                              token_path = env ''TOKEN_PATH'',
                              drive_folder_id = env ''DRIVE_FOLDER_ID'' \<rparr> \<rparr>))"
proof (intro conjI ballI impI allI)
  fix v assume v: "v \<in> set required_vars" "env v = None"
  then show "v \<in> set (missing_vars env)"
    by (simp add: missing_vars_def falsy_env_def)
  then have "missing_vars env \<noteq> []" by auto
  then show "load_config py_int env =
         Inl (ValueError (''Missing required environment variables: '' @ join '', '' (missing_vars env)))"
    by (simp add: load_config_def)
next
  show "set (missing_vars env) = {v \<in> set required_vars. env v = None \<or> env v = Some []}"
    by (auto simp: missing_vars_def falsy_env_iff)
next
  fix n
  assume all: "\<forall>v \<in> set required_vars. \<exists>s. env v = Some s \<and> s \<noteq> []"
    and n: "py_int (env ''TRINO_PORT'') = Inr n"
  from all have m: "missing_vars env = []"
    by (auto simp: missing_vars_Nil_iff falsy_env_def)
  from n m show "load_config py_int env =
            Inr \<lparr> trino = \<lparr> host = env ''TRINO_HOST'', port = n, user = env ''TRINO_USER'',
                             password = env ''TRINO_PASSWORD'', catalog = env ''TRINO_CATALOG'',
                             schema = env ''TRINO_SCHEMA'' \<rparr>,
                  google = \<lparr> client_secret_file = env ''GOOGLE_CLIENT_SECRET_FILE'',
                              token_path = env ''TOKEN_PATH'',
                              drive_folder_id = env ''DRIVE_FOLDER_ID'' \<rparr> \<rparr>"
    by (simp add: load_config_def)
qed

text \<open>
  The theorem at two concrete environments: one with the host and the token path unset,
  and one with the eight checked variables set.
\<close>

theorem load_config_required_witness:
  "load_config int_8443 (env_no_password(''TOKEN_PATH'' := None, ''TRINO_HOST'' := None)) =
     Inl (ValueError ''Missing required environment variables: TRINO_HOST, TOKEN_PATH'')
   \<and> (\<exists>c. load_config int_8443 env_no_password = Inr c \<and> port (trino c) = 8443
          \<and> password (trino c) = None \<and> drive_folder_id (google c) = Some ''folder-1'')"
proof -
  let ?e = "env_no_password(''TOKEN_PATH'' := None, ''TRINO_HOST'' := None)"
  have a: "''TRINO_HOST'' \<in> set required_vars" by (simp add: required_vars_def)
  have b: "?e ''TRINO_HOST'' = None" by simp
  have c: "missing_vars ?e = [''TRINO_HOST'', ''TOKEN_PATH'']"
    by (simp add: missing_vars_def required_vars_def falsy_env_def env_no_password_def)
  have d: "\<forall>v \<in> set required_vars. \<exists>s. env_no_password v = Some s \<and> s \<noteq> []"
    by (simp add: required_vars_def env_no_password_def)
  have e: "int_8443 (env_no_password ''TRINO_PORT'') = Inr 8443"
    by (simp add: env_no_password_def int_8443_def)
  from load_config_required [of ?e int_8443] a b c
  have 1: "load_config int_8443 ?e =
     Inl (ValueError ''Missing required environment variables: TRINO_HOST, TOKEN_PATH'')"
    by simp
  from load_config_required [of env_no_password int_8443] d e
  have 2: "load_config int_8443 env_no_password =
            Inr \<lparr> trino = \<lparr> host = env_no_password ''TRINO_HOST'', port = 8443, user = env_no_password ''TRINO_USER'',
                             password = env_no_password ''TRINO_PASSWORD'', catalog = env_no_password ''TRINO_CATALOG'',
                             schema = env_no_password ''TRINO_SCHEMA'' \<rparr>,
                  google = \<lparr> client_secret_file = env_no_password ''GOOGLE_CLIENT_SECRET_FILE'',
                              token_path = env_no_password ''TOKEN_PATH'',
                              drive_folder_id = env_no_password ''DRIVE_FOLDER_ID'' \<rparr> \<rparr>"
    by blast
  show ?thesis
    unfolding 1 2 by (simp add: env_no_password_def)
qed

section \<open>Results about the resilient API call\<close>

lemma create_attempt_Raises:
  "srv (length (requests w)) = Raises e \<Longrightarrow>
   create_attempt srv title w = (Inl e, w\<lparr> requests := requests w @ [SpreadsheetsCreate title] \<rparr>)"
  by (simp add: create_attempt_def execute_def)

lemma create_attempt_Replies:
  "srv (length (requests w)) = Replies r \<Longrightarrow>
   create_attempt srv title w = (Inr (spreadsheetId r), w\<lparr> requests := requests w @ [SpreadsheetsCreate title] \<rparr>)"
  by (simp add: create_attempt_def execute_def)

lemma create_loop_succeeds:
  assumes "retry + n < MAX_RETRIES"
    and "\<forall>k<n. \<exists>status msg. srv (length (requests w) + k) = Raises (HttpError status msg)
            \<and> retryable_status status"
    and "srv (length (requests w) + n) = Replies r"
  shows "retry_loop what (create_attempt srv title) retry w =
           (Inr (spreadsheetId r),
            w\<lparr> requests := requests w @ replicate (Suc n) (SpreadsheetsCreate title),
               sleeps := sleeps w @ map (\<lambda>k. INITIAL_RETRY_DELAY * 2 ^ k) [retry..<retry + n] \<rparr>)"
  using assms
proof (induction n arbitrary: retry w)
  case 0
  then show ?case
    by (subst retry_loop.simps) (simp add: create_attempt_Replies)
next
  case (Suc n)
  let ?req = "SpreadsheetsCreate title"
  from Suc.prems(2) obtain status msg where
    h: "srv (length (requests w)) = Raises (HttpError status msg)" "retryable_status status"
    by force
  let ?w' = "w\<lparr> requests := requests w @ [?req], sleeps := sleeps w @ [INITIAL_RETRY_DELAY * 2 ^ retry] \<rparr>"
  have lt: "retry < MAX_RETRIES" "\<not> MAX_RETRIES - 1 \<le> retry" using Suc.prems(1) by auto
  have step: "retry_loop what (create_attempt srv title) retry w =
              retry_loop what (create_attempt srv title) (retry + 1) ?w'"
    using lt h(2) by (subst retry_loop.simps) (simp add: create_attempt_Raises [of srv w, OF h(1)])
  have a: "Suc retry + n < MAX_RETRIES" using Suc.prems(1) by simp
  have b: "\<forall>k<n. \<exists>status msg. srv (length (requests ?w') + k) = Raises (HttpError status msg)
            \<and> retryable_status status"
  proof (intro allI impI)
    fix k assume "k < n"
    then have "Suc k < Suc n" by simp
    with Suc.prems(2) have "\<exists>status msg. srv (length (requests w) + Suc k) = Raises (HttpError status msg)
            \<and> retryable_status status" by blast
    then show "\<exists>status msg. srv (length (requests ?w') + k) = Raises (HttpError status msg)
            \<and> retryable_status status" by simp
  qed
  have c: "srv (length (requests ?w') + n) = Replies r" using Suc.prems(3) by simp
  have upt: "[retry..<retry + Suc n] = retry # [Suc retry..<Suc retry + n]"
    by (simp add: upt_rec)
  show ?case
    unfolding step using Suc.IH [OF a b c]
    by (simp add: upt_conv_Cons replicate_app_Cons_same del: upt_Suc)
qed

lemma create_loop_fails:
  assumes "retry + n < MAX_RETRIES"
    and "\<forall>k<n. \<exists>status msg. srv (length (requests w) + k) = Raises (HttpError status msg)
            \<and> retryable_status status"
    and "srv (length (requests w) + n) = Raises e"
    and "retry + n = MAX_RETRIES - 1 \<or> \<not> retryable_exn e"
  shows "retry_loop what (create_attempt srv title) retry w =
           (Inl (RuntimeError (what @ '': '' @ str_exn e)),
            w\<lparr> requests := requests w @ replicate (Suc n) (SpreadsheetsCreate title),
               sleeps := sleeps w @ map (\<lambda>k. INITIAL_RETRY_DELAY * 2 ^ k) [retry..<retry + n] \<rparr>)"
  using assms
proof (induction n arbitrary: retry w)
  case 0
  then have e: "srv (length (requests w)) = Raises e" by simp
  from 0 have lt: "retry < MAX_RETRIES" by simp
  from 0 have stop: "MAX_RETRIES - 1 \<le> retry \<or> \<not> retryable_exn e" by auto
  show ?case
    using stop
    by (subst retry_loop.simps, cases e) (auto simp: create_attempt_Raises [of srv w, OF e] lt)
next
  case (Suc n)
  let ?req = "SpreadsheetsCreate title"
  from Suc.prems(2) obtain status msg where
    h: "srv (length (requests w)) = Raises (HttpError status msg)" "retryable_status status"
    by force
  let ?w' = "w\<lparr> requests := requests w @ [?req], sleeps := sleeps w @ [INITIAL_RETRY_DELAY * 2 ^ retry] \<rparr>"
  have lt: "retry < MAX_RETRIES" "\<not> MAX_RETRIES - 1 \<le> retry" using Suc.prems(1) by auto
  have step: "retry_loop what (create_attempt srv title) retry w =
              retry_loop what (create_attempt srv title) (retry + 1) ?w'"
    using lt h(2) by (subst retry_loop.simps) (simp add: create_attempt_Raises [of srv w, OF h(1)])
  have a: "Suc retry + n < MAX_RETRIES" using Suc.prems(1) by simp
  have b: "\<forall>k<n. \<exists>status msg. srv (length (requests ?w') + k) = Raises (HttpError status msg)
            \<and> retryable_status status"
  proof (intro allI impI)
    fix k assume "k < n"
    then have "Suc k < Suc n" by simp
    with Suc.prems(2) have "\<exists>status msg. srv (length (requests w) + Suc k) = Raises (HttpError status msg)
            \<and> retryable_status status" by blast
    then show "\<exists>status msg. srv (length (requests ?w') + k) = Raises (HttpError status msg)
            \<and> retryable_status status" by simp
  qed
  have c: "srv (length (requests ?w') + n) = Raises e" using Suc.prems(3) by simp
  have d: "Suc retry + n = MAX_RETRIES - 1 \<or> \<not> retryable_exn e" using Suc.prems(4) by simp
  have upt: "[retry..<retry + Suc n] = retry # [Suc retry..<Suc retry + n]"
    by (simp add: upt_rec)
  show ?case
    unfolding step using Suc.IH [OF a b c d]
    by (simp add: upt_conv_Cons replicate_app_Cons_same del: upt_Suc)
qed

text \<open>
  Claim C3.  When the first \<open>n\<close> requests of \<^verbatim>\<open>create_google_sheet\<close> are answered by
  \<^verbatim>\<open>HttpError\<close>s with status 429, 500, 502, 503 or 504, with \<open>n\<close> below the budget of
  five attempts, and the next one by a reply, the call returns the reply's
  \<^verbatim>\<open>spreadsheetId\<close> and raises nothing, having slept \<open>INITIAL_RETRY_DELAY * 2 ^ k\<close>
  before retry \<open>k\<close>, for \<open>k = 0, ..., n - 1\<close>, and having sent \<open>n + 1\<close> requests.
\<close>

theorem create_google_sheet_retries_then_succeeds:
  assumes "n < MAX_RETRIES"
    and "\<forall>k<n. \<exists>status msg. srv (length (requests w) + k) = Raises (HttpError status msg)
            \<and> status \<in> {429, 500, 502, 503, 504}"
    and "srv (length (requests w) + n) = Replies r"
  shows "create_google_sheet srv title w =
           (Inr (spreadsheetId r),
            w\<lparr> requests := requests w @ replicate (n + 1) (SpreadsheetsCreate title),
               sleeps := sleeps w @ map (\<lambda>k. INITIAL_RETRY_DELAY * 2 ^ k) [0..<n] \<rparr>)"
proof -
  from assms(2) have b: "\<forall>k<n. \<exists>status msg. srv (length (requests w) + k) = Raises (HttpError status msg)
            \<and> retryable_status status"
    by (simp add: retryable_status_def)
  from assms(1) have a: "0 + n < MAX_RETRIES" by simp
  show ?thesis
    unfolding create_google_sheet_def
    by (simp add: create_loop_succeeds [OF a b assms(3)])
qed

text \<open>Four rate-limit answers, then a reply: the waits are 1, 2, 4 and 8.\<close>

theorem create_google_sheet_retries_then_succeeds_witness:
  "create_google_sheet srv_rate_limited ''export'' empty_world =
     (Inr (Some ''sheet-1''),
      empty_world\<lparr> requests := replicate 5 (SpreadsheetsCreate ''export''), sleeps := [1, 2, 4, 8] \<rparr>)"
proof -
  have a: "(4::nat) < MAX_RETRIES" by (simp add: MAX_RETRIES_def)
  have b: "\<forall>k<4. \<exists>status msg. srv_rate_limited (length (requests empty_world) + k) = Raises (HttpError status msg)
            \<and> status \<in> {429, 500, 502, 503, 504}"
    by (simp add: srv_rate_limited_def empty_world_def)
  have d: "map (\<lambda>k. INITIAL_RETRY_DELAY * 2 ^ k) [0..<4] = [1, 2, 4, 8]"
    by (simp add: INITIAL_RETRY_DELAY_def upt_rec)
  have c: "srv_rate_limited (length (requests empty_world) + 4)
            = Replies \<lparr> spreadsheetId = Some ''sheet-1'', parents = None \<rparr>"
    by (simp add: srv_rate_limited_def empty_world_def)
  show ?thesis
    using create_google_sheet_retries_then_succeeds [OF a b c, of "''export''"]
    unfolding d by (simp add: empty_world_def)
qed

text \<open>
  Claim C4.  When an attempt of \<^verbatim>\<open>create_google_sheet\<close> raises an exception that is
  not an \<^verbatim>\<open>HttpError\<close> with a transient status, or when the fifth attempt raises
  anything, no further attempt is made and the call raises a \<^verbatim>\<open>RuntimeError\<close> that
  names the operation and carries the text of the cause.  With \<open>n = 0\<close>: a permanent
  error at the first attempt gives exactly one request and no wait.  With \<open>n = 4\<close>: five
  transient errors exhaust the budget and the call raises instead of returning.
\<close>

theorem create_google_sheet_failure_is_wrapped:
  assumes "n < MAX_RETRIES"
    and "\<forall>k<n. \<exists>status msg. srv (length (requests w) + k) = Raises (HttpError status msg)
            \<and> status \<in> {429, 500, 502, 503, 504}"
    and "srv (length (requests w) + n) = Raises e"
    and "n = MAX_RETRIES - 1 \<or> \<not> retryable_exn e"
  shows "create_google_sheet srv title w =
           (Inl (RuntimeError (''Failed to create Google Sheet: '' @ str_exn e)),
            w\<lparr> requests := requests w @ replicate (n + 1) (SpreadsheetsCreate title),
               sleeps := sleeps w @ map (\<lambda>k. INITIAL_RETRY_DELAY * 2 ^ k) [0..<n] \<rparr>)"
proof -
  from assms(2) have b: "\<forall>k<n. \<exists>status msg. srv (length (requests w) + k) = Raises (HttpError status msg)
            \<and> retryable_status status"
    by (simp add: retryable_status_def)
  from assms(1) have a: "0 + n < MAX_RETRIES" by simp
  from assms(4) have d: "0 + n = MAX_RETRIES - 1 \<or> \<not> retryable_exn e" by simp
  show ?thesis
    unfolding create_google_sheet_def
    by (simp add: create_loop_fails [OF a b assms(3) d])
qed

text \<open>A status 404 at the first attempt, and a status 503 at each of five attempts.\<close>

theorem create_google_sheet_failure_is_wrapped_witness:
  "create_google_sheet srv_not_found ''export'' empty_world =
     (Inl (RuntimeError ''Failed to create Google Sheet: not found''),
      empty_world\<lparr> requests := [SpreadsheetsCreate ''export''], sleeps := [] \<rparr>)
   \<and> create_google_sheet srv_unavailable ''export'' empty_world =
     (Inl (RuntimeError ''Failed to create Google Sheet: unavailable''),
      empty_world\<lparr> requests := replicate 5 (SpreadsheetsCreate ''export''), sleeps := [1, 2, 4, 8] \<rparr>)"
proof -
  have a0: "(0::nat) < MAX_RETRIES" and a4: "(4::nat) < MAX_RETRIES" by (simp_all add: MAX_RETRIES_def)
  have b0: "\<forall>k<0. \<exists>status msg. srv_not_found (length (requests empty_world) + k) = Raises (HttpError status msg)
            \<and> status \<in> {429, 500, 502, 503, 504}"
    by simp
  have c0: "srv_not_found (length (requests empty_world) + 0) = Raises (HttpError 404 ''not found'')"
    by (simp add: srv_not_found_def)
  have d0: "0 = MAX_RETRIES - 1 \<or> \<not> retryable_exn (HttpError 404 ''not found'')"
    by (simp add: retryable_status_def)
  have b4: "\<forall>k<4. \<exists>status msg. srv_unavailable (length (requests empty_world) + k) = Raises (HttpError status msg)
            \<and> status \<in> {429, 500, 502, 503, 504}"
    by (simp add: srv_unavailable_def)
  have c4: "srv_unavailable (length (requests empty_world) + 4) = Raises (HttpError 503 ''unavailable'')"
    by (simp add: srv_unavailable_def)
  have d4: "4 = MAX_RETRIES - 1 \<or> \<not> retryable_exn (HttpError 503 ''unavailable'')"
    by (simp add: MAX_RETRIES_def)
  have s: "map (\<lambda>k. INITIAL_RETRY_DELAY * 2 ^ k) [0..<4] = [1, 2, 4, 8]"
    by (simp add: INITIAL_RETRY_DELAY_def upt_rec)
  have 1: "create_google_sheet srv_not_found ''export'' empty_world =
     (Inl (RuntimeError ''Failed to create Google Sheet: not found''),
      empty_world\<lparr> requests := [SpreadsheetsCreate ''export''], sleeps := [] \<rparr>)"
    using create_google_sheet_failure_is_wrapped [OF a0 b0 c0 d0, of "''export''"]
    by (simp add: empty_world_def)
  have 2: "create_google_sheet srv_unavailable ''export'' empty_world =
     (Inl (RuntimeError ''Failed to create Google Sheet: unavailable''),
      empty_world\<lparr> requests := replicate 5 (SpreadsheetsCreate ''export''), sleeps := [1, 2, 4, 8] \<rparr>)"
    using create_google_sheet_failure_is_wrapped [OF a4 b4 c4 d4, of "''export''"]
    unfolding s by (simp add: empty_world_def)
  from 1 2 show ?thesis by simp
qed

lemma execute_log:
  "execute srv req w = (r, w') \<Longrightarrow>
   requests w' = requests w @ [req] \<and> sleeps w' = sleeps w \<and> frames w' = frames w"
  by (auto simp: execute_def Let_def split: response.splits)

lemma sum_backoff: "sum_list (map (\<lambda>k. INITIAL_RETRY_DELAY * 2 ^ k) [0..<j]) = 2 ^ j - 1"
  by (induction j) (simp_all add: INITIAL_RETRY_DELAY_def)

lemma sum_backoff_le: "j < MAX_RETRIES \<Longrightarrow> sum_list (map (\<lambda>k. INITIAL_RETRY_DELAY * 2 ^ k) [0..<j]) \<le> 15"
proof -
  assume "j < MAX_RETRIES"
  then have "j \<le> 4" by (simp add: MAX_RETRIES_def)
  then have "(2::nat) ^ j \<le> 2 ^ 4" by (intro power_increasing) simp_all
  then show ?thesis by (simp add: sum_backoff)
qed

text \<open>
  Counterexample to claim C6 as stated.  The claim bounds the requests of one invocation by
  five.  An attempt of \<^verbatim>\<open>move_sheet_to_folder\<close> sends two requests; when every
  \<^verbatim>\<open>files().update\<close> fails with status 503 the five attempts send ten.
\<close>

theorem move_sheet_to_folder_ten_requests:
  "length (requests (snd (move_sheet_to_folder srv_update_unavailable ''file-1'' ''folder-1'' empty_world))) = 10"
  by (simp add: move_sheet_to_folder_def retry_loop.simps move_attempt_def execute_def
        srv_update_unavailable_def empty_world_def MAX_RETRIES_def retryable_status_def)

lemma prepare_dataframe_for_sheets_eq:
  "prepare_dataframe_for_sheets df w =
     (case astype_str_loop (date_cols (frames w ! df)) (frames w ! df) of
        (Some e, g1) \<Rightarrow> (Inl e, w\<lparr> frames := frames w @ [g1] \<rparr>)
      | (None, g1) \<Rightarrow>
         (case fix_loop (map col_name (columns (where_notnull (replace_na g1))))
                 (where_notnull (replace_na g1)) of
            (Some e, g2) \<Rightarrow> (Inl e, w\<lparr> frames := frames w @ [g1, replace_na g1, g2] \<rparr>)
          | (None, g2) \<Rightarrow>
             (case last_resort g2 of
                (Some e, g3) \<Rightarrow> (Inl e, w\<lparr> frames := frames w @ [g1, replace_na g1, g3] \<rparr>)
              | (None, g3) \<Rightarrow>
                  (Inr (length (frames w) + 2), w\<lparr> frames := frames w @ [g1, replace_na g1, g3] \<rparr>))))"
  by (simp add: prepare_dataframe_for_sheets_def new_frame_def set_frame_def
        Let_def nth_append list_update_append split: prod.splits option.splits)

lemma prepare_outcome:
  assumes "prepare_dataframe_for_sheets df w = (r, w')"
  shows "\<exists>fs. w' = w\<lparr> frames := frames w @ fs \<rparr> \<and>
           (case r of
              Inl e \<Rightarrow> prepared (frames w ! df) = Inl e
            | Inr p \<Rightarrow> p = length (frames w) + 2 \<and> length fs = 3
                        \<and> prepared (frames w ! df) = Inr (fs ! 2))"
  using assms unfolding prepare_dataframe_for_sheets_eq prepared_def
  by (auto split: prod.splits option.splits)

lemma write_after_prepare:
  assumes "prepared (frames w ! df) = Inr g"
  shows "\<exists>w1. requests w1 = requests w \<and> sleeps w1 = sleeps w \<and> sheets w1 = sheets w \<and>
           write_dataframe_to_sheet srv spreadsheet_id df w =
             (if BATCH_SIZE < length (table_values g) then
                retry_loop ''Failed to write data to Google Sheet''
                  (process_batches srv spreadsheet_id (enumerate (make_batches (table_values g)))) 0 w1
              else
                retry_loop ''Failed to write data to Google Sheet''
                  (single_write_attempt srv spreadsheet_id (table_values g)) 0 w1)"
proof -
  obtain r w1 where p: "prepare_dataframe_for_sheets df w = (r, w1)"
    by (cases "prepare_dataframe_for_sheets df w")
  from prepare_outcome [OF p] assms obtain fs where
    h: "w1 = w\<lparr> frames := frames w @ fs \<rparr>" "r = Inr (length (frames w) + 2)" "length fs = 3" "fs ! 2 = g"
    by (cases r) auto
  have "frames w1 ! (length (frames w) + 2) = g"
    using h by (simp add: nth_append)
  with p h(1,2) show ?thesis
    by (intro exI [of _ w1]) (simp add: write_dataframe_to_sheet_def Let_def)
qed

lemma write_prepare_raises:
  assumes "prepared (frames w ! df) = Inl e"
  shows "\<exists>w1. requests w1 = requests w \<and> sleeps w1 = sleeps w \<and> sheets w1 = sheets w \<and>
           write_dataframe_to_sheet srv spreadsheet_id df w = (Inl e, w1)"
proof -
  obtain r w1 where p: "prepare_dataframe_for_sheets df w = (r, w1)"
    by (cases "prepare_dataframe_for_sheets df w")
  from prepare_outcome [OF p] assms obtain fs where
    h: "w1 = w\<lparr> frames := frames w @ fs \<rparr>" "r = Inl e"
    by (cases r) auto
  with p show ?thesis
    by (intro exI [of _ w1]) (simp add: write_dataframe_to_sheet_def)
qed

lemma retry_loop_Inr:
  "retry < MAX_RETRIES \<Longrightarrow> attempt w = (Inr v, w') \<Longrightarrow>
   retry_loop what attempt retry w = (Inr v, w')"
  by (subst retry_loop.simps) simp

lemma retry_loop_again:
  "retry < MAX_RETRIES - 1 \<Longrightarrow> attempt w = (Inl (HttpError status msg), w') \<Longrightarrow>
   retryable_status status \<Longrightarrow>
   retry_loop what attempt retry w =
     retry_loop what attempt (retry + 1) (w'\<lparr> sleeps := sleeps w' @ [INITIAL_RETRY_DELAY * 2 ^ retry] \<rparr>)"
  by (subst retry_loop.simps) auto

lemma retry_loop_log:
  assumes att: "\<And>w r w'. attempt w = (r, w') \<Longrightarrow>
             sleeps w' = sleeps w \<and> (\<exists>new. requests w' = requests w @ new \<and> P new)"
    and run: "retry_loop what attempt retry w = (res, w_end)"
    and lt: "retry < MAX_RETRIES"
  shows "\<exists>news j. length news = j + 1 \<and> list_all P news \<and> retry + j < MAX_RETRIES
           \<and> requests w_end = requests w @ concat news
           \<and> sleeps w_end = sleeps w @ map (\<lambda>k. INITIAL_RETRY_DELAY * 2 ^ k) [retry..<retry + j]"
  using run lt
proof (induction "MAX_RETRIES - retry" arbitrary: retry w)
  case 0
  then show ?case by simp
next
  case (Suc d)
  then have lt: "retry < MAX_RETRIES" by simp
  obtain r w1 where a: "attempt w = (r, w1)" by (cases "attempt w")
  from att [OF a] obtain n1 where
    w1: "sleeps w1 = sleeps w" "requests w1 = requests w @ n1" "P n1" by blast
  let ?again = "(\<exists>status msg. r = Inl (HttpError status msg) \<and> retryable_status status) \<and> retry < MAX_RETRIES - 1"
  show ?case
  proof (cases ?again)
    case False
    have "w_end = w1"
      using Suc.prems False lt a
      by (subst (asm) retry_loop.simps) (auto split: sum.splits pyexn.splits if_splits)
    with w1 lt show ?thesis
      by (intro exI [of _ "[n1]"] exI [of _ 0]) simp
  next
    case True
    then obtain status msg where r: "r = Inl (HttpError status msg)" "retryable_status status"
      and lt1: "retry < MAX_RETRIES - 1" by blast
    let ?w2 = "w1\<lparr> sleeps := sleeps w1 @ [INITIAL_RETRY_DELAY * 2 ^ retry] \<rparr>"
    have next_run: "retry_loop what attempt (retry + 1) ?w2 = (res, w_end)"
      using Suc.prems(1) a r lt1 by (simp add: retry_loop_again)
    have d: "d = MAX_RETRIES - (retry + 1)" using Suc.hyps(2) by simp
    have lt2: "retry + 1 < MAX_RETRIES" using lt1 by simp
    from Suc.hyps(1) [OF d next_run lt2] obtain news j2 where
      ih: "length news = j2 + 1" "list_all P news" "retry + 1 + j2 < MAX_RETRIES"
          "requests w_end = requests ?w2 @ concat news"
          "sleeps w_end = sleeps ?w2 @ map (\<lambda>k. INITIAL_RETRY_DELAY * 2 ^ k) [retry + 1..<retry + 1 + j2]"
      by blast
    have upt: "[retry..<retry + (j2 + 1)] = retry # [retry + 1..<retry + 1 + j2]"
      by (simp add: upt_rec)
    show ?thesis
    proof (intro exI [of _ "n1 # news"] exI [of _ "j2 + 1"] conjI)
      show "length (n1 # news) = j2 + 1 + 1" using ih(1) by simp
      show "list_all P (n1 # news)" using ih(2) w1(3) by simp
      show "retry + (j2 + 1) < MAX_RETRIES" using ih(3) by simp
      show "requests w_end = requests w @ concat (n1 # news)" using ih(4) w1(2) by simp
      show "sleeps w_end = sleeps w @ map (\<lambda>k. INITIAL_RETRY_DELAY * 2 ^ k) [retry..<retry + (j2 + 1)]"
        unfolding upt using ih(5) w1(1) by simp
    qed
  qed
qed

lemma length_concat_le:
  "list_all (\<lambda>n. length n \<le> c) news \<Longrightarrow> length (concat news) \<le> c * length news"
  by (induction news) auto

lemma concat_singletons:
  "list_all (\<lambda>n. n = [x]) news \<Longrightarrow> concat news = replicate (length news) x"
  by (induction news) auto

lemma process_batches_log:
  "process_batches srv sid ibs w = (r, w') \<Longrightarrow>
   sleeps w' = sleeps w \<and> (\<exists>new. requests w' = requests w @ new \<and> length new \<le> length ibs)"
proof (induction ibs arbitrary: w)
  case Nil
  then show ?case by simp
next
  case (Cons ib rest)
  obtain r1 w1 where e: "execute srv (batch_request sid ib) w = (r1, w1)"
    by (cases "execute srv (batch_request sid ib) w")
  from execute_log [OF e] have l: "requests w1 = requests w @ [batch_request sid ib]"
    "sleeps w1 = sleeps w" by simp_all
  show ?case
  proof (cases r1)
    case (Inl x)
    with Cons.prems e have "w' = w1" by simp
    with l show ?thesis by simp
  next
    case (Inr y)
    with Cons.prems e have "process_batches srv sid rest w1 = (r, w')" by simp
    from Cons.IH [OF this] obtain new where "sleeps w' = sleeps w1" "requests w' = requests w1 @ new"
      "length new \<le> length rest" by blast
    with l show ?thesis by simp
  qed
qed

lemma process_batches_all_ok:
  assumes "\<forall>i<length ibs. \<exists>r. srv (length (requests w) + i) = Replies r"
  shows "process_batches srv sid ibs w =
           (Inr (), w\<lparr> requests := requests w @ map (batch_request sid) ibs,
                       sheets := fold sink_effect (map (batch_request sid) ibs) (sheets w) \<rparr>)"
  using assms
proof (induction ibs arbitrary: w)
  case Nil
  then show ?case by simp
next
  case (Cons ib rest)
  from Cons.prems obtain r where r: "srv (length (requests w)) = Replies r" by force
  let ?w1 = "w\<lparr> requests := requests w @ [batch_request sid ib],
                sheets := sink_effect (batch_request sid ib) (sheets w) \<rparr>"
  have e: "execute srv (batch_request sid ib) w = (Inr r, ?w1)"
    using r by (simp add: execute_def)
  have "\<forall>i<length rest. \<exists>r. srv (length (requests ?w1) + i) = Replies r"
  proof (intro allI impI)
    fix i assume "i < length rest"
    then have "Suc i < length (ib # rest)" by simp
    with Cons.prems have "\<exists>r. srv (length (requests w) + Suc i) = Replies r" by blast
    then show "\<exists>r. srv (length (requests ?w1) + i) = Replies r" by simp
  qed
  from Cons.IH [OF this] e show ?case by simp
qed

lemma process_batches_fails_at:
  assumes "k < length ibs"
    and "\<forall>i<k. \<exists>r. srv (length (requests w) + i) = Replies r"
    and "srv (length (requests w) + k) = Raises e"
  shows "process_batches srv sid ibs w =
           (Inl e, w\<lparr> requests := requests w @ map (batch_request sid) (take (k + 1) ibs),
                      sheets := fold sink_effect (map (batch_request sid) (take k ibs)) (sheets w) \<rparr>)"
  using assms
proof (induction ibs arbitrary: w k)
  case Nil
  then show ?case by simp
next
  case (Cons ib rest)
  show ?case
  proof (cases k)
    case 0
    with Cons.prems have "srv (length (requests w)) = Raises e" by simp
    then have "execute srv (batch_request sid ib) w =
                 (Inl e, w\<lparr> requests := requests w @ [batch_request sid ib] \<rparr>)"
      by (simp add: execute_def)
    with 0 show ?thesis by simp
  next
    case (Suc k')
    from Cons.prems Suc obtain r where r: "srv (length (requests w)) = Replies r" by force
    let ?w1 = "w\<lparr> requests := requests w @ [batch_request sid ib],
                  sheets := sink_effect (batch_request sid ib) (sheets w) \<rparr>"
    have e: "execute srv (batch_request sid ib) w = (Inr r, ?w1)"
      using r by (simp add: execute_def)
    have a: "k' < length rest" using Cons.prems(1) Suc by simp
    have b: "\<forall>i<k'. \<exists>r. srv (length (requests ?w1) + i) = Replies r"
    proof (intro allI impI)
      fix i assume "i < k'"
      then have "Suc i < k" using Suc by simp
      with Cons.prems(2) have "\<exists>r. srv (length (requests w) + Suc i) = Replies r" by blast
      then show "\<exists>r. srv (length (requests ?w1) + i) = Replies r" by simp
    qed
    have c: "srv (length (requests ?w1) + k') = Raises e" using Cons.prems(3) Suc by simp
    from Cons.IH [OF a b c] e Suc show ?thesis by simp
  qed
qed

lemma create_attempt_log:
  "create_attempt srv title w = (r, w') \<Longrightarrow>
   sleeps w' = sleeps w \<and> (\<exists>new. requests w' = requests w @ new \<and> new = [SpreadsheetsCreate title])"
  by (auto simp: create_attempt_def split: prod.splits sum.splits dest!: execute_log)

lemma single_write_attempt_log:
  "single_write_attempt srv sid vals w = (r, w') \<Longrightarrow>
   sleeps w' = sleeps w \<and> (\<exists>new. requests w' = requests w @ new \<and> new = [ValuesUpdate sid (Sheet1_A 1) vals])"
  by (auto simp: single_write_attempt_def split: prod.splits sum.splits dest!: execute_log)

lemma move_attempt_log:
  "move_attempt srv file_id folder_id w = (r, w') \<Longrightarrow>
   sleeps w' = sleeps w \<and> (\<exists>new. requests w' = requests w @ new \<and> length new \<le> 2)"
  by (auto simp: move_attempt_def Let_def split: prod.splits sum.splits dest!: execute_log)

lemma retry_loop_budget_from_0:
  assumes att: "\<forall>w r w'. attempt w = (r, w') \<longrightarrow>
             sleeps w' = sleeps w \<and> (\<exists>new. requests w' = requests w @ new \<and> length new \<le> c)"
  shows "\<exists>j<MAX_RETRIES. \<exists>new. length new \<le> c * (j + 1)
           \<and> requests (snd (retry_loop what attempt 0 w)) = requests w @ new
           \<and> sleeps (snd (retry_loop what attempt 0 w)) = sleeps w @ map (\<lambda>k. INITIAL_RETRY_DELAY * 2 ^ k) [0..<j]
           \<and> sum_list (map (\<lambda>k. INITIAL_RETRY_DELAY * 2 ^ k) [0..<j]) \<le> 15"
proof -
  obtain res w_end where run: "retry_loop what attempt 0 w = (res, w_end)"
    by (cases "retry_loop what attempt 0 w")
  have lt: "0 < MAX_RETRIES" by (simp add: MAX_RETRIES_def)
  have "\<exists>news j. length news = j + 1 \<and> list_all (\<lambda>n. length n \<le> c) news \<and> 0 + j < MAX_RETRIES
           \<and> requests w_end = requests w @ concat news
           \<and> sleeps w_end = sleeps w @ map (\<lambda>k. INITIAL_RETRY_DELAY * 2 ^ k) [0..<0 + j]"
  proof (rule retry_loop_log [OF _ run lt])
    fix w r w' assume "attempt w = (r, w')"
    then show "sleeps w' = sleeps w \<and> (\<exists>new. requests w' = requests w @ new \<and> length new \<le> c)"
      using att by blast
  qed
  then obtain news j where h: "length news = j + 1" "list_all (\<lambda>n. length n \<le> c) news" "0 + j < MAX_RETRIES"
     "requests w_end = requests w @ concat news"
     "sleeps w_end = sleeps w @ map (\<lambda>k. INITIAL_RETRY_DELAY * 2 ^ k) [0..<0 + j]"
    by blast
  from length_concat_le [OF h(2)] h(1) have "length (concat news) \<le> c * (j + 1)" by simp
  with h run sum_backoff_le [of j] show ?thesis
    by (intro exI [of _ j]) auto
qed

text \<open>
  Claim C6, amended.  Every invocation of \<^verbatim>\<open>create_google_sheet\<close>,
  \<^verbatim>\<open>move_sheet_to_folder\<close> and \<^verbatim>\<open>write_dataframe_to_sheet\<close> makes at most five
  attempts: it waits \<open>j\<close> times with \<open>j < 5\<close>, the waits are
  \<open>INITIAL_RETRY_DELAY * 2 ^ k\<close> for \<open>k = 0, ..., j - 1\<close>, and their sum is at most 15.
  The requests sent are bounded by the attempts made, \<open>j + 1\<close>, times the requests of one
  attempt: one for the creation and for the write of a small table, two for the move, the
  number of batches for the write of a large table (and none when the normalizer raises,
  which leaves \<^verbatim>\<open>write_dataframe_to_sheet\<close> before its first attempt).
\<close>

theorem retry_budget:
  "(\<exists>j<MAX_RETRIES. \<exists>new. length new \<le> j + 1
       \<and> requests (snd (create_google_sheet srv title w)) = requests w @ new
       \<and> sleeps (snd (create_google_sheet srv title w)) =
           sleeps w @ map (\<lambda>k. INITIAL_RETRY_DELAY * 2 ^ k) [0..<j]
       \<and> sum_list (map (\<lambda>k. INITIAL_RETRY_DELAY * 2 ^ k) [0..<j]) \<le> 15)
   \<and> (\<exists>j<MAX_RETRIES. \<exists>new. length new \<le> 2 * (j + 1)
       \<and> requests (snd (move_sheet_to_folder srv file_id folder_id w)) = requests w @ new
       \<and> sleeps (snd (move_sheet_to_folder srv file_id folder_id w)) =
           sleeps w @ map (\<lambda>k. INITIAL_RETRY_DELAY * 2 ^ k) [0..<j]
       \<and> sum_list (map (\<lambda>k. INITIAL_RETRY_DELAY * 2 ^ k) [0..<j]) \<le> 15)
   \<and> (\<exists>j<MAX_RETRIES. \<exists>new.
         length new \<le>
           (case prepared (frames w ! df) of
              Inl e \<Rightarrow> 0
            | Inr g \<Rightarrow> if BATCH_SIZE < length (table_values g)
                       then length (make_batches (table_values g)) else 1) * (j + 1)
       \<and> requests (snd (write_dataframe_to_sheet srv spreadsheet_id df w)) = requests w @ new
       \<and> sleeps (snd (write_dataframe_to_sheet srv spreadsheet_id df w)) =
           sleeps w @ map (\<lambda>k. INITIAL_RETRY_DELAY * 2 ^ k) [0..<j]
       \<and> sum_list (map (\<lambda>k. INITIAL_RETRY_DELAY * 2 ^ k) [0..<j]) \<le> 15)"
proof (intro conjI)
  have "\<forall>w r w'. create_attempt srv title w = (r, w') \<longrightarrow>
          sleeps w' = sleeps w \<and> (\<exists>new. requests w' = requests w @ new \<and> length new \<le> 1)"
    using create_attempt_log by fastforce
  from retry_loop_budget_from_0 [OF this]
  show "\<exists>j<MAX_RETRIES. \<exists>new. length new \<le> j + 1
       \<and> requests (snd (create_google_sheet srv title w)) = requests w @ new
       \<and> sleeps (snd (create_google_sheet srv title w)) =
           sleeps w @ map (\<lambda>k. INITIAL_RETRY_DELAY * 2 ^ k) [0..<j]
       \<and> sum_list (map (\<lambda>k. INITIAL_RETRY_DELAY * 2 ^ k) [0..<j]) \<le> 15"
    unfolding create_google_sheet_def by simp
next
  have "\<forall>w r w'. move_attempt srv file_id folder_id w = (r, w') \<longrightarrow>
          sleeps w' = sleeps w \<and> (\<exists>new. requests w' = requests w @ new \<and> length new \<le> 2)"
    using move_attempt_log by blast
  from retry_loop_budget_from_0 [OF this]
  show "\<exists>j<MAX_RETRIES. \<exists>new. length new \<le> 2 * (j + 1)
       \<and> requests (snd (move_sheet_to_folder srv file_id folder_id w)) = requests w @ new
       \<and> sleeps (snd (move_sheet_to_folder srv file_id folder_id w)) =
           sleeps w @ map (\<lambda>k. INITIAL_RETRY_DELAY * 2 ^ k) [0..<j]
       \<and> sum_list (map (\<lambda>k. INITIAL_RETRY_DELAY * 2 ^ k) [0..<j]) \<le> 15"
    unfolding move_sheet_to_folder_def by blast
next
  let ?nb = "case prepared (frames w ! df) of
               Inl e \<Rightarrow> 0
             | Inr g \<Rightarrow> if BATCH_SIZE < length (table_values g)
                        then length (make_batches (table_values g)) else 1"
  let ?run = "write_dataframe_to_sheet srv spreadsheet_id df w"
  show "\<exists>j<MAX_RETRIES. \<exists>new. length new \<le> ?nb * (j + 1)
       \<and> requests (snd ?run) = requests w @ new
       \<and> sleeps (snd ?run) = sleeps w @ map (\<lambda>k. INITIAL_RETRY_DELAY * 2 ^ k) [0..<j]
       \<and> sum_list (map (\<lambda>k. INITIAL_RETRY_DELAY * 2 ^ k) [0..<j]) \<le> 15"
  proof (cases "prepared (frames w ! df)")
    case (Inl e)
    from write_prepare_raises [OF Inl, of srv spreadsheet_id] obtain w1 where
      "requests w1 = requests w" "sleeps w1 = sleeps w" "?run = (Inl e, w1)" by blast
    then show ?thesis
      by (intro exI [of _ 0] exI [of _ "[]"]) (simp add: MAX_RETRIES_def)
  next
    case (Inr g)
    let ?vals = "table_values g"
    from write_after_prepare [OF Inr, of srv spreadsheet_id] obtain w1 where
      w1: "requests w1 = requests w" "sleeps w1 = sleeps w"
      and run: "?run =
             (if BATCH_SIZE < length ?vals then
                retry_loop ''Failed to write data to Google Sheet''
                  (process_batches srv spreadsheet_id (enumerate (make_batches ?vals))) 0 w1
              else
                retry_loop ''Failed to write data to Google Sheet''
                  (single_write_attempt srv spreadsheet_id ?vals) 0 w1)"
      by blast
    show ?thesis
    proof (cases "BATCH_SIZE < length ?vals")
      case True
      have att: "\<forall>w r w'. process_batches srv spreadsheet_id (enumerate (make_batches ?vals)) w = (r, w') \<longrightarrow>
            sleeps w' = sleeps w \<and> (\<exists>new. requests w' = requests w @ new \<and> length new \<le> length (make_batches ?vals))"
        using process_batches_log [of srv spreadsheet_id "enumerate (make_batches ?vals)"]
        by (simp add: enumerate_def)
      from retry_loop_budget_from_0 [OF att, of _ w1] True Inr w1
      show ?thesis by (simp add: run)
    next
      case False
      have att: "\<forall>w r w'. single_write_attempt srv spreadsheet_id ?vals w = (r, w') \<longrightarrow>
            sleeps w' = sleeps w \<and> (\<exists>new. requests w' = requests w @ new \<and> length new \<le> 1)"
        using single_write_attempt_log by fastforce
      from retry_loop_budget_from_0 [OF att, of _ w1] False Inr w1
      show ?thesis by (simp add: run)
    qed
  qed
qed

lemma length_table_values: "length (table_values f) = nrows f + 1"
  by (simp add: table_values_def frame_values_def)

lemma ceil_div_step:
  assumes "0 < step" and "0 < (m::nat)"
  shows "(m + step - 1) div step = Suc ((m - step + step - 1) div step)"
proof -
  have "m + step - 1 = (m - 1) + step" using assms by simp
  then have "(m + step - 1) div step = ((m - 1) + step) div step" by (simp only:)
  also have "\<dots> = (m - 1) div step + 1"
  proof (rule div_add_self2)
    show "step \<noteq> 0" using assms(1) by simp
  qed
  also have "\<dots> = Suc ((m - 1) div step)" by simp
  finally have l: "(m + step - 1) div step = Suc ((m - 1) div step)" .
  show ?thesis
  proof (cases "step \<le> m")
    case True
    then have "m - step + step - 1 = m - 1" by simp
    with l show ?thesis by simp
  next
    case False
    then have "m - step + step - 1 = step - 1" "(m - 1) div step = 0" using assms by simp_all
    with l assms show ?thesis by simp
  qed
qed

lemma py_range_eq:
  "0 < step \<Longrightarrow>
   py_range start stop step = map (\<lambda>j. start + j * step) [0..<(stop - start + step - 1) div step]"
proof (induction start stop step rule: py_range.induct)
  case (1 start stop step)
  show ?case
  proof (cases "stop \<le> start")
    case True
    with 1(2) show ?thesis by (subst py_range.simps) simp
  next
    case False
    let ?n = "(stop - (start + step) + step - 1) div step"
    from False 1(2) have ih: "py_range (start + step) stop step = map (\<lambda>j. start + step + j * step) [0..<?n]"
      using 1(1) by simp
    from False have m: "0 < stop - start" by simp
    have n: "(stop - start + step - 1) div step = Suc ?n"
      using ceil_div_step [OF 1(2) m] by (simp add: diff_diff_left)
    have "py_range start stop step = start # py_range (start + step) stop step"
      using False 1(2) by (subst py_range.simps) simp
    also have "\<dots> = start # map (\<lambda>j. start + step + j * step) [0..<?n]" by (simp only: ih)
    also have "\<dots> = map (\<lambda>j. start + j * step) (0 # map Suc [0..<?n])"
      by (simp add: add.assoc comp_def)
    also have "0 # map Suc [0..<?n] = [0..<Suc ?n]"
      by (simp add: map_Suc_upt upt_conv_Cons del: upt_Suc)
    finally show ?thesis by (simp only: n)
  qed
qed

lemma BATCH_SIZE_pos: "0 < BATCH_SIZE"
  by (simp add: BATCH_SIZE_def)

lemma make_batches_eq:
  "make_batches vals =
     map (\<lambda>j. take BATCH_SIZE (drop (j * BATCH_SIZE) vals))
       [0..<(length vals + BATCH_SIZE - 1) div BATCH_SIZE]"
  by (simp add: make_batches_def py_range_eq [OF BATCH_SIZE_pos] comp_def)

lemma length_make_batches:
  "length (make_batches vals) = (length vals + BATCH_SIZE - 1) div BATCH_SIZE"
  by (simp add: make_batches_eq)

lemma concat_chunks:
  "concat (map (\<lambda>j. take b (drop (j * b) vals)) [0..<n]) = take (n * b) vals"
proof (induction n)
  case 0
  then show ?case by simp
next
  case (Suc n)
  have "take (n * b) vals @ take b (drop (n * b) vals) = take (n * b + b) vals"
    by (simp add: take_add)
  with Suc show ?case by (simp add: add.commute)
qed

lemma ceil_div_covers: "0 < b \<Longrightarrow> (n::nat) \<le> ((n + b - 1) div b) * b"
proof -
  assume b: "0 < b"
  have "n + b - 1 = ((n + b - 1) div b) * b + (n + b - 1) mod b" by simp
  moreover have "(n + b - 1) mod b < b" using b by simp
  ultimately show ?thesis by linarith
qed

lemma concat_make_batches: "concat (make_batches vals) = vals"
  using ceil_div_covers [OF BATCH_SIZE_pos, of "length vals"]
  by (simp add: make_batches_eq concat_chunks)

lemma zip_map_self: "zip xs (map f xs) = map (\<lambda>x. (x, f x)) xs"
  by (induction xs) simp_all

lemma batch_requests_eq:
  "batch_requests sid vals =
     map (\<lambda>j. if j = 0 then ValuesUpdate sid (Sheet1_A 1) (take BATCH_SIZE (drop (j * BATCH_SIZE) vals))
               else ValuesAppend sid (Sheet1_A (j * BATCH_SIZE + 1)) (take BATCH_SIZE (drop (j * BATCH_SIZE) vals)))
       [0..<(length vals + BATCH_SIZE - 1) div BATCH_SIZE]"
  by (simp add: batch_requests_def enumerate_def make_batches_eq zip_map_self batch_request_def
        comp_def Let_def)

lemma payload_batch_requests: "map payload (batch_requests sid vals) = make_batches vals"
  by (simp add: batch_requests_eq make_batches_eq comp_def if_distrib cong: if_cong)

lemma fold_sink_appends:
  "fold sink_effect (map (\<lambda>j. ValuesAppend sid (r j) (c j)) js) sh =
     sh(sid := sh sid @ concat (map c js))"
proof (induction js arbitrary: sh)
  case Nil
  then show ?case by simp
next
  case (Cons j js)
  show ?case by (auto simp: Cons.IH fun_eq_iff)
qed

lemma overwrite_rows_0: "overwrite_rows 0 rows old = rows @ drop (length rows) old"
  by (simp add: overwrite_rows_def)

lemma range_text_A1: "range_text (Sheet1_A 1) = ''Sheet1!A1''"
  by (simp add: show_nat.simps digit_char_def)

lemma single_write_attempt_Replies:
  "srv (length (requests w)) = Replies r \<Longrightarrow>
   single_write_attempt srv sid vals w =
     (Inr (), w\<lparr> requests := requests w @ [ValuesUpdate sid (Sheet1_A 1) vals],
                 sheets := (sheets w)(sid := vals @ drop (length vals) (sheets w sid)) \<rparr>)"
  by (simp add: single_write_attempt_def execute_def overwrite_rows_0)

lemma retry_loop_single_request:
  assumes att: "\<forall>w r w'. attempt w = (r, w') \<longrightarrow>
             sleeps w' = sleeps w \<and> (\<exists>new. requests w' = requests w @ new \<and> new = [req])"
  shows "\<exists>j<MAX_RETRIES. requests (snd (retry_loop what attempt 0 w)) = requests w @ replicate (j + 1) req"
proof -
  obtain res w_end where run: "retry_loop what attempt 0 w = (res, w_end)"
    by (cases "retry_loop what attempt 0 w")
  have lt: "0 < MAX_RETRIES" by (simp add: MAX_RETRIES_def)
  have "\<exists>news j. length news = j + 1 \<and> list_all (\<lambda>n. n = [req]) news \<and> 0 + j < MAX_RETRIES
           \<and> requests w_end = requests w @ concat news
           \<and> sleeps w_end = sleeps w @ map (\<lambda>k. INITIAL_RETRY_DELAY * 2 ^ k) [0..<0 + j]"
  proof (rule retry_loop_log [OF _ run lt])
    fix w r w' assume "attempt w = (r, w')"
    then show "sleeps w' = sleeps w \<and> (\<exists>new. requests w' = requests w @ new \<and> new = [req])"
      using att by blast
  qed
  then obtain news j where h: "length news = j + 1" "list_all (\<lambda>n. n = [req]) news" "j < MAX_RETRIES"
     "requests w_end = requests w @ concat news"
    by auto
  from concat_singletons [OF h(2)] h(1) have "concat news = replicate (j + 1) req" by simp
  with h run show ?thesis by (intro exI [of _ j]) simp
qed

text \<open>
  Claim C5.  When the header row and the data rows of the prepared table are at most
  \<open>BATCH_SIZE\<close> rows, every request \<^verbatim>\<open>write_dataframe_to_sheet\<close> sends is the same
  \<^verbatim>\<open>values().update\<close> at \<^verbatim>\<open>Sheet1!A1\<close> carrying all rows: one for each attempt, and
  exactly one when the service answers the first with a reply; the call then returns and
  the sheet holds the rows from its first row on.
\<close>

theorem write_small_table_single_overwrite:
  assumes "prepared (frames w ! df) = Inr g"
    and "vals = table_values g"
    and "length vals \<le> BATCH_SIZE"
  shows "(\<exists>j<MAX_RETRIES. requests (snd (write_dataframe_to_sheet srv spreadsheet_id df w)) =
             requests w @ replicate (j + 1) (ValuesUpdate spreadsheet_id (Sheet1_A 1) vals))
       \<and> range_text (Sheet1_A 1) = ''Sheet1!A1''
       \<and> (\<forall>r. srv (length (requests w)) = Replies r \<longrightarrow>
            fst (write_dataframe_to_sheet srv spreadsheet_id df w) = Inr ()
          \<and> requests (snd (write_dataframe_to_sheet srv spreadsheet_id df w)) =
              requests w @ [ValuesUpdate spreadsheet_id (Sheet1_A 1) vals]
          \<and> sleeps (snd (write_dataframe_to_sheet srv spreadsheet_id df w)) = sleeps w
          \<and> sheets (snd (write_dataframe_to_sheet srv spreadsheet_id df w)) spreadsheet_id =
              vals @ drop (length vals) (sheets w spreadsheet_id))"
proof -
  let ?att = "single_write_attempt srv spreadsheet_id vals"
  from write_after_prepare [OF assms(1), of srv spreadsheet_id] assms(2,3) obtain w1 :: world where
    w1: "requests w1 = requests w" "sleeps w1 = sleeps w" "sheets w1 = sheets w"
    and eq: "write_dataframe_to_sheet srv spreadsheet_id df w =
              retry_loop ''Failed to write data to Google Sheet'' ?att 0 w1"
    by auto
  have att: "\<forall>w r w'. ?att w = (r, w') \<longrightarrow>
          sleeps w' = sleeps w \<and> (\<exists>new. requests w' = requests w @ new
             \<and> new = [ValuesUpdate spreadsheet_id (Sheet1_A 1) vals])"
    using single_write_attempt_log by blast
  have 1: "\<exists>j<MAX_RETRIES. requests (snd (write_dataframe_to_sheet srv spreadsheet_id df w)) =
             requests w @ replicate (j + 1) (ValuesUpdate spreadsheet_id (Sheet1_A 1) vals)"
    using retry_loop_single_request [OF att, of _ w1] unfolding eq by (simp add: w1)
  have 2: "\<forall>r. srv (length (requests w)) = Replies r \<longrightarrow>
            fst (write_dataframe_to_sheet srv spreadsheet_id df w) = Inr ()
          \<and> requests (snd (write_dataframe_to_sheet srv spreadsheet_id df w)) =
              requests w @ [ValuesUpdate spreadsheet_id (Sheet1_A 1) vals]
          \<and> sleeps (snd (write_dataframe_to_sheet srv spreadsheet_id df w)) = sleeps w
          \<and> sheets (snd (write_dataframe_to_sheet srv spreadsheet_id df w)) spreadsheet_id =
              vals @ drop (length vals) (sheets w spreadsheet_id)"
  proof (intro allI impI)
    fix r assume "srv (length (requests w)) = Replies r"
    then have "srv (length (requests w1)) = Replies r" by (simp add: w1)
    from single_write_attempt_Replies [of srv w1, OF this]
    have a: "?att w1 = (Inr (), w1\<lparr> requests := requests w1 @ [ValuesUpdate spreadsheet_id (Sheet1_A 1) vals],
                 sheets := (sheets w1)(spreadsheet_id := vals @ drop (length vals) (sheets w1 spreadsheet_id)) \<rparr>)" .
    have lt: "0 < MAX_RETRIES" by (simp add: MAX_RETRIES_def)
    show "fst (write_dataframe_to_sheet srv spreadsheet_id df w) = Inr ()
          \<and> requests (snd (write_dataframe_to_sheet srv spreadsheet_id df w)) =
              requests w @ [ValuesUpdate spreadsheet_id (Sheet1_A 1) vals]
          \<and> sleeps (snd (write_dataframe_to_sheet srv spreadsheet_id df w)) = sleeps w
          \<and> sheets (snd (write_dataframe_to_sheet srv spreadsheet_id df w)) spreadsheet_id =
              vals @ drop (length vals) (sheets w spreadsheet_id)"
      unfolding eq by (subst retry_loop.simps, simp add: a lt w1)+
  qed
  from 1 2 range_text_A1 show ?thesis by blast
qed

lemma batch_requests_Cons:
  assumes "vals \<noteq> []"
  shows "batch_requests sid vals =
           ValuesUpdate sid (Sheet1_A 1) (take BATCH_SIZE vals) #
           map (\<lambda>j. ValuesAppend sid (Sheet1_A (j * BATCH_SIZE + 1)) (take BATCH_SIZE (drop (j * BATCH_SIZE) vals)))
             [1..<(length vals + BATCH_SIZE - 1) div BATCH_SIZE]"
proof -
  let ?n = "(length vals + BATCH_SIZE - 1) div BATCH_SIZE"
  from assms have "0 < length vals" by simp
  from ceil_div_step [OF BATCH_SIZE_pos this] have "0 < ?n" by simp
  then have u: "[0..<?n] = 0 # [1..<?n]" by (simp add: upt_conv_Cons)
  show ?thesis
    unfolding batch_requests_eq u by simp
qed

lemma take_batch_requests:
  assumes "0 < k" and "k \<le> (length vals + BATCH_SIZE - 1) div BATCH_SIZE"
  shows "take k (batch_requests sid vals) =
           ValuesUpdate sid (Sheet1_A 1) (take BATCH_SIZE vals) #
           map (\<lambda>j. ValuesAppend sid (Sheet1_A (j * BATCH_SIZE + 1)) (take BATCH_SIZE (drop (j * BATCH_SIZE) vals)))
             [1..<k]"
proof -
  have "vals \<noteq> []" using assms by (cases vals) (auto simp: BATCH_SIZE_def)
  from batch_requests_Cons [OF this, of sid] assms show ?thesis
    by (cases k) (simp_all add: take_map)
qed

lemma chunks_from_0:
  "0 < k \<Longrightarrow> take b vals @ concat (map (\<lambda>j. take b (drop (j * b) vals)) [1..<k]) = take (k * b) vals"
proof -
  assume "0 < k"
  then have "[0..<k] = 0 # [1..<k]" by (simp add: upt_conv_Cons)
  from concat_chunks [of b vals k, unfolded this] show ?thesis by simp
qed

lemma sink_after_batches:
  assumes "0 < k" and "k \<le> (length vals + BATCH_SIZE - 1) div BATCH_SIZE"
  shows "fold sink_effect (take k (batch_requests sid vals)) sh sid =
           take BATCH_SIZE vals @ drop (length (take BATCH_SIZE vals)) (sh sid) @
           concat (map (\<lambda>j. take BATCH_SIZE (drop (j * BATCH_SIZE) vals)) [1..<k])"
  unfolding take_batch_requests [OF assms]
  by (simp add: fold_sink_appends overwrite_rows_0)

lemma length_enumerate: "length (enumerate xs) = length xs"
  by (simp add: enumerate_def)

lemma length_batch_requests:
  "length (batch_requests sid vals) = (length vals + BATCH_SIZE - 1) div BATCH_SIZE"
  by (simp add: batch_requests_eq)

lemma nth_batch_requests:
  assumes "0 < i" and "i < (length vals + BATCH_SIZE - 1) div BATCH_SIZE"
  shows "batch_requests sid vals ! i =
           ValuesAppend sid (Sheet1_A (i * BATCH_SIZE + 1)) (take BATCH_SIZE (drop (i * BATCH_SIZE) vals))"
  using assms by (simp add: batch_requests_eq)

lemma sink_full_pass:
  assumes "vals \<noteq> []" and "sh sid = []"
  shows "fold sink_effect (batch_requests sid vals) sh sid = vals"
proof -
  let ?n = "(length vals + BATCH_SIZE - 1) div BATCH_SIZE"
  from assms(1) have "0 < length vals" by simp
  from ceil_div_step [OF BATCH_SIZE_pos this] have n: "0 < ?n" by simp
  have t: "take ?n (batch_requests sid vals) = batch_requests sid vals"
    by (simp add: length_batch_requests)
  from sink_after_batches [OF n order_refl, of sid sh] assms(2)
  have "fold sink_effect (batch_requests sid vals) sh sid =
          take BATCH_SIZE vals @ concat (map (\<lambda>j. take BATCH_SIZE (drop (j * BATCH_SIZE) vals)) [1..<?n])"
    unfolding t by simp
  also have "\<dots> = take (?n * BATCH_SIZE) vals" by (rule chunks_from_0 [OF n])
  also have "\<dots> = vals" using ceil_div_covers [OF BATCH_SIZE_pos, of "length vals"] by simp
  finally show ?thesis .
qed

text \<open>
  Claim C1.  When the prepared table has more than \<open>BATCH_SIZE\<close> rows, header included,
  and the service answers every request with a reply, \<^verbatim>\<open>write_dataframe_to_sheet\<close>
  returns after \<open>ceil (rows / BATCH_SIZE)\<close> requests: the first a \<^verbatim>\<open>values().update\<close> at
  \<^verbatim>\<open>Sheet1!A1\<close> with the first \<open>BATCH_SIZE\<close> rows, request \<open>i > 0\<close> a
  \<^verbatim>\<open>values().append\<close> with the rows from \<open>i * BATCH_SIZE\<close> on.  The payloads, concatenated
  in the order of the requests, are the header row followed by the data rows, and a sheet
  that was empty holds exactly these rows afterwards.
\<close>

theorem write_large_table_in_batches:
  assumes "prepared (frames w ! df) = Inr g"
    and "vals = table_values g"
    and "BATCH_SIZE < length vals"
    and "\<forall>i < (length vals + BATCH_SIZE - 1) div BATCH_SIZE. \<exists>r. srv (length (requests w) + i) = Replies r"
  shows "\<exists>w' calls. write_dataframe_to_sheet srv spreadsheet_id df w = (Inr (), w')
       \<and> requests w' = requests w @ calls
       \<and> length calls = (length vals + BATCH_SIZE - 1) div BATCH_SIZE
       \<and> calls ! 0 = ValuesUpdate spreadsheet_id (Sheet1_A 1) (take BATCH_SIZE vals)
       \<and> (\<forall>i. 0 < i \<and> i < length calls \<longrightarrow>
             calls ! i = ValuesAppend spreadsheet_id (Sheet1_A (i * BATCH_SIZE + 1))
                           (take BATCH_SIZE (drop (i * BATCH_SIZE) vals)))
       \<and> concat (map payload calls) = vals
       \<and> sleeps w' = sleeps w
       \<and> (sheets w spreadsheet_id = [] \<longrightarrow> sheets w' spreadsheet_id = vals)"
proof -
  let ?ibs = "enumerate (make_batches vals)"
  let ?calls = "batch_requests spreadsheet_id vals"
  let ?w' = "\<lambda>w1::world. w1\<lparr> requests := requests w1 @ ?calls, sheets := fold sink_effect ?calls (sheets w1) \<rparr>"
  have ne: "vals \<noteq> []" using assms(3) by auto
  from write_after_prepare [OF assms(1), of srv spreadsheet_id] assms(2,3) obtain w1 :: world where
    w1: "requests w1 = requests w" "sleeps w1 = sleeps w" "sheets w1 = sheets w"
    and eq: "write_dataframe_to_sheet srv spreadsheet_id df w =
              retry_loop ''Failed to write data to Google Sheet''
                (process_batches srv spreadsheet_id ?ibs) 0 w1"
    by auto
  have ok: "\<forall>i<length ?ibs. \<exists>r. srv (length (requests w1) + i) = Replies r"
    using assms(4) by (simp add: length_enumerate length_make_batches w1)
  have pass: "process_batches srv spreadsheet_id ?ibs w1 = (Inr (), (?w' w1))"
    using process_batches_all_ok [OF ok, of spreadsheet_id] by (simp add: batch_requests_def)
  have lt: "0 < MAX_RETRIES" by (simp add: MAX_RETRIES_def)
  have run: "write_dataframe_to_sheet srv spreadsheet_id df w = (Inr (), (?w' w1))"
    unfolding eq by (subst retry_loop.simps) (simp add: pass lt)
  have n: "0 < (length vals + BATCH_SIZE - 1) div BATCH_SIZE"
    using ceil_div_step [OF BATCH_SIZE_pos, of "length vals"] ne by simp
  show ?thesis
  proof (intro exI [of _ "?w' w1"] exI [of _ ?calls] conjI allI impI)
    show "write_dataframe_to_sheet srv spreadsheet_id df w = (Inr (), (?w' w1))" by (rule run)
    show "requests (?w' w1) = requests w @ ?calls" by (simp add: w1)
    show "length ?calls = (length vals + BATCH_SIZE - 1) div BATCH_SIZE"
      by (rule length_batch_requests)
    show "?calls ! 0 = ValuesUpdate spreadsheet_id (Sheet1_A 1) (take BATCH_SIZE vals)"
      by (simp add: batch_requests_Cons [OF ne])
    show "concat (map payload ?calls) = vals"
      by (simp add: payload_batch_requests concat_make_batches)
    show "sleeps (?w' w1) = sleeps w" by (simp add: w1)
  next
    fix i assume "0 < i \<and> i < length ?calls"
    then show "?calls ! i = ValuesAppend spreadsheet_id (Sheet1_A (i * BATCH_SIZE + 1))
                           (take BATCH_SIZE (drop (i * BATCH_SIZE) vals))"
      by (simp add: nth_batch_requests length_batch_requests)
  next
    assume "sheets w spreadsheet_id = []"
    then show "sheets (?w' w1) spreadsheet_id = vals"
      by (simp add: sink_full_pass [OF ne] w1)
  qed
qed

text \<open>
  Claim C2.  In the batched path, when the request for batch \<open>k\<close> raises an
  \<^verbatim>\<open>HttpError\<close> with a transient status after the batches before it were written, and
  the service answers the requests that follow, the second attempt sends the request of
  every batch again from batch 0: the overwrite of batch 0 and then every append, those of
  batches \<open>1, ..., k - 1\<close> for the second time.  The call returns, and a sheet that was
  empty holds the rows of batches \<open>0, ..., k - 1\<close> followed by the rows of batches
  \<open>1, ...\<close>: the rows of batches \<open>1, ..., k - 1\<close> are there twice.
\<close>

theorem write_batches_retry_repeats_appends:
  assumes "prepared (frames w ! df) = Inr g"
    and "vals = table_values g"
    and "BATCH_SIZE < length vals"
    and "k < length (make_batches vals)"
    and "\<forall>i<k. \<exists>r. srv (length (requests w) + i) = Replies r"
    and "srv (length (requests w) + k) = Raises (HttpError status msg)"
    and "status \<in> {429, 500, 502, 503, 504}"
    and "\<forall>i < length (make_batches vals). \<exists>r. srv (length (requests w) + k + 1 + i) = Replies r"
  shows "\<exists>w'. write_dataframe_to_sheet srv spreadsheet_id df w = (Inr (), w')
       \<and> requests w' = requests w @ take (k + 1) (batch_requests spreadsheet_id vals)
                                  @ batch_requests spreadsheet_id vals
       \<and> sleeps w' = sleeps w @ [INITIAL_RETRY_DELAY]
       \<and> (sheets w spreadsheet_id = [] \<longrightarrow>
            sheets w' spreadsheet_id =
              concat (take k (make_batches vals)) @ concat (drop (min 1 k) (make_batches vals)))"
proof -
  let ?ibs = "enumerate (make_batches vals)"
  let ?calls = "batch_requests spreadsheet_id vals"
  let ?what = "''Failed to write data to Google Sheet''"
  let ?n = "(length vals + BATCH_SIZE - 1) div BATCH_SIZE"
  let ?chunk = "\<lambda>j. take BATCH_SIZE (drop (j * BATCH_SIZE) vals)"
  have ne: "vals \<noteq> []" using assms(3) by auto
  have kn: "k < ?n" using assms(4) by (simp add: length_make_batches)
  from write_after_prepare [OF assms(1), of srv spreadsheet_id] assms(2,3) obtain w1 :: world where
    w1: "requests w1 = requests w" "sleeps w1 = sleeps w" "sheets w1 = sheets w"
    and eq: "write_dataframe_to_sheet srv spreadsheet_id df w =
              retry_loop ?what (process_batches srv spreadsheet_id ?ibs) 0 w1"
    by auto
  let ?w2 = "w1\<lparr> requests := requests w1 @ take (k + 1) ?calls,
                  sheets := fold sink_effect (take k ?calls) (sheets w1) \<rparr>"
  have first: "process_batches srv spreadsheet_id ?ibs w1 = (Inl (HttpError status msg), ?w2)"
  proof -
    have a: "k < length ?ibs" using assms(4) by (simp add: length_enumerate)
    have b: "\<forall>i<k. \<exists>r. srv (length (requests w1) + i) = Replies r" using assms(5) by (simp add: w1)
    have c: "srv (length (requests w1) + k) = Raises (HttpError status msg)" using assms(6) by (simp add: w1)
    from process_batches_fails_at [OF a b c, of spreadsheet_id] show ?thesis
      by (simp add: batch_requests_def take_map)
  qed
  let ?w3 = "?w2\<lparr> sleeps := sleeps ?w2 @ [INITIAL_RETRY_DELAY * 2 ^ 0] \<rparr>"
  let ?w' = "?w3\<lparr> requests := requests ?w3 @ ?calls, sheets := fold sink_effect ?calls (sheets ?w3) \<rparr>"
  have second: "process_batches srv spreadsheet_id ?ibs ?w3 = (Inr (), ?w')"
  proof -
    have len: "length (requests ?w3) = length (requests w) + k + 1"
      using kn by (simp add: length_batch_requests w1)
    have ok: "\<forall>i<length ?ibs. \<exists>r. srv (length (requests ?w3) + i) = Replies r"
      unfolding len using assms(8) by (simp add: length_enumerate)
    from process_batches_all_ok [OF ok, of spreadsheet_id] show ?thesis
      by (simp add: batch_requests_def)
  qed
  have st: "retryable_status status" using assms(7) by (simp add: retryable_status_def)
  have lt0: "0 < MAX_RETRIES - 1" and lt1: "0 + 1 < MAX_RETRIES" by (simp_all add: MAX_RETRIES_def)
  have "retry_loop ?what (process_batches srv spreadsheet_id ?ibs) 0 w1 =
        retry_loop ?what (process_batches srv spreadsheet_id ?ibs) (0 + 1) ?w3"
    using lt0 st first by (subst retry_loop.simps) auto
  also have "\<dots> = (Inr (), ?w')"
    using lt1 second by (subst retry_loop.simps) simp
  finally have run: "write_dataframe_to_sheet srv spreadsheet_id df w = (Inr (), ?w')"
    unfolding eq .
  show ?thesis
  proof (intro exI [of _ ?w'] conjI impI)
    show "write_dataframe_to_sheet srv spreadsheet_id df w = (Inr (), ?w')" by (rule run)
    show "requests ?w' = requests w @ take (k + 1) ?calls @ ?calls" by (simp add: w1)
    show "sleeps ?w' = sleeps w @ [INITIAL_RETRY_DELAY]" by (simp add: w1)
  next
    assume empty: "sheets w spreadsheet_id = []"
    have mb: "make_batches vals = map ?chunk [0..<?n]" by (rule make_batches_eq)
    show "sheets ?w' spreadsheet_id =
            concat (take k (make_batches vals)) @ concat (drop (min 1 k) (make_batches vals))"
    proof (cases "k = 0")
      case True
      then have "fold sink_effect (take k ?calls) (sheets w1) spreadsheet_id = []"
        using empty by (simp add: w1)
      then have "sheets ?w' spreadsheet_id = vals"
        by (simp add: sink_full_pass [OF ne])
      with True show ?thesis by (simp add: concat_make_batches)
    next
      case False
      then have k0: "0 < k" by simp
      have kle: "k \<le> ?n" using kn by simp
      have n0: "0 < ?n" using kn by simp
      have old: "fold sink_effect (take k ?calls) (sheets w1) spreadsheet_id
                   = ?chunk 0 @ concat (map ?chunk [1..<k])"
        using sink_after_batches [OF k0 kle, of spreadsheet_id "sheets w1"] empty by (simp add: w1)
      have t: "take ?n ?calls = ?calls" by (simp add: length_batch_requests)
      have "sheets ?w' spreadsheet_id =
              fold sink_effect ?calls (fold sink_effect (take k ?calls) (sheets w1)) spreadsheet_id"
        by simp
      also have "\<dots> = take BATCH_SIZE vals @
                   drop (length (take BATCH_SIZE vals))
                     (fold sink_effect (take k ?calls) (sheets w1) spreadsheet_id) @
                   concat (map ?chunk [1..<?n])"
        using sink_after_batches [OF n0 order_refl, of spreadsheet_id
                "fold sink_effect (take k ?calls) (sheets w1)"]
        unfolding t .
      also have "\<dots> = (?chunk 0 @ concat (map ?chunk [1..<k])) @ concat (map ?chunk [1..<?n])"
        unfolding old by simp
      also have "?chunk 0 @ concat (map ?chunk [1..<k]) = concat (take k (make_batches vals))"
      proof -
        have "take k (make_batches vals) = map ?chunk [0..<k]"
          unfolding mb using kle by (simp add: take_map)
        moreover have "[0..<k] = 0 # [1..<k]" using k0 by (simp add: upt_conv_Cons)
        ultimately show ?thesis by simp
      qed
      also have "concat (map ?chunk [1..<?n]) = concat (drop (min 1 k) (make_batches vals))"
      proof -
        have "min 1 k = 1" using k0 by simp
        then show ?thesis unfolding mb by (simp add: drop_map)
      qed
      finally show ?thesis .
    qed
  qed
qed

section \<open>Results about the normalizer\<close>

lemma dumps_all_ok:
  "\<forall>x \<in> set xs. \<exists>j. enc x = Inr j \<Longrightarrow> \<exists>js. dumps_all enc xs = Inr js"
  by (induction xs) auto

lemma dumps_rows_ok:
  "\<forall>r \<in> set rows. \<forall>x \<in> set r. \<exists>j. dumps_value x = Inr j \<Longrightarrow> \<exists>doc. dumps_rows rows = Inr doc"
proof (induction rows)
  case Nil
  then show ?case by simp
next
  case (Cons r rows)
  then have "\<forall>x \<in> set r. \<exists>j. dumps_value x = Inr j" by simp
  from dumps_all_ok [OF this] obtain js where "dumps_all dumps_value r = Inr js" by blast
  moreover from Cons obtain doc where "dumps_rows rows = Inr doc" by auto
  ultimately show ?case by simp
qed

lemma list_of_length_2: "length xs = 2 \<Longrightarrow> xs = [xs ! 0, xs ! 1]"
  by (auto simp: numeral_2_eq_2 length_Suc_conv)

lemma upt_0_2: "[0..<2] = [0, 1]"
  by (simp add: upt_rec)

lemma upt_0_3: "[0..<3] = [0, 1, 2]"
  by (simp add: upt_rec)

lemma prepared_small_frame:
  "prepared small_frame =
     Inr \<lparr> nrows = 1,
           columns = [\<lparr> col_name = ''note'', col_dtype = Object, col_cells = [PNone] \<rparr>,
                      \<lparr> col_name = ''seen'', col_dtype = Object, col_cells = [PStr ''2024-01-02''] \<rparr>,
                      \<lparr> col_name = ''count'', col_dtype = Int64, col_cells = [PInt 42] \<rparr>] \<rparr>"
  by (simp add: prepared_def small_frame_def date_cols_def astype_str_def replace_na_def
        where_notnull_def map_object_cells_def dumps_list_def last_resort_def frame_values_def
        upcasts_def)

lemma table_values_small_frame:
  "table_values
     \<lparr> nrows = 1,
       columns = [\<lparr> col_name = ''note'', col_dtype = Object, col_cells = [PNone] \<rparr>,
                  \<lparr> col_name = ''seen'', col_dtype = Object, col_cells = [PStr ''2024-01-02''] \<rparr>,
                  \<lparr> col_name = ''count'', col_dtype = Int64, col_cells = [PInt 42] \<rparr>] \<rparr> =
     [[Obj (PStr ''note''), Obj (PStr ''seen''), Obj (PStr ''count'')],
      [Obj PNone, Obj (PStr ''2024-01-02''), Obj (PInt 42)]]"
  by (simp add: table_values_def frame_header_def frame_values_def upcasts_def)

lemma frame_values_big_frame:
  "frame_values (big_frame n) = map (\<lambda>i. [Obj (PInt (int i))]) [0..<n]"
  by (simp add: frame_values_def big_frame_def upcasts_def cong: map_cong)

lemma prepared_big_frame: "prepared (big_frame n) = Inr (big_frame n)"
proof -
  have "\<forall>x \<in> set (map (\<lambda>i. PInt (int i)) [0..<n]). \<exists>j. dumps_cell x = Inr j" by auto
  from dumps_all_ok [OF this] obtain js where
    col: "dumps_list (map (\<lambda>i. PInt (int i)) [0..<n]) = Inr js"
    unfolding dumps_list_def by blast
  have "\<forall>r \<in> set (frame_values (big_frame n)). \<forall>x \<in> set r. \<exists>j. dumps_value x = Inr j"
    unfolding frame_values_big_frame by auto
  from dumps_rows_ok [OF this] obtain doc where
    rows: "dumps_rows (frame_values (big_frame n)) = Inr doc" by blast
  have pre: "where_notnull (replace_na (big_frame n)) = big_frame n"
    by (simp add: where_notnull_def replace_na_def map_object_cells_def big_frame_def)
  have dates: "astype_str_loop (date_cols (big_frame n)) (big_frame n) = (None, big_frame n)"
    by (simp add: date_cols_def big_frame_def)
  have fixed: "fix_loop (map col_name (columns (big_frame n))) (big_frame n) = (None, big_frame n)"
    using col by (simp add: big_frame_def)
  have last: "last_resort (big_frame n) = (None, big_frame n)"
    using rows by (simp add: last_resort_def)
  show ?thesis
    by (simp add: prepared_def dates pre fixed last)
qed

lemma table_values_big_frame:
  "table_values (big_frame n) = [Obj (PStr ''id'')] # map (\<lambda>i. [Obj (PInt (int i))]) [0..<n]"
  by (simp add: table_values_def frame_values_big_frame) (simp add: frame_header_def big_frame_def)

lemma prepared_nulls_frame:
  "prepared nulls_frame =
     Inr \<lparr> nrows = 2,
           columns = [\<lparr> col_name = ''price'', col_dtype = Float64,
                         col_cells = [PFloat ''1.5'', PFloat ''nan''] \<rparr>,
                      \<lparr> col_name = ''amount'', col_dtype = Object,
                         col_cells = [PStr ''2.5'', PStr ''None''] \<rparr>,
                      \<lparr> col_name = ''seen'', col_dtype = Object,
                         col_cells = [PStr ''2024-01-02'', PStr ''NaT''] \<rparr>,
                      \<lparr> col_name = ''count'', col_dtype = Int64, col_cells = [PInt 42, PInt 7] \<rparr>] \<rparr>"
  by (simp add: prepared_def nulls_frame_def date_cols_def astype_str_def replace_na_def
        where_notnull_def map_object_cells_def dumps_list_def not_serializable_def
        last_resort_def frame_values_def upcasts_def upt_0_2)

text \<open>
  The model at three inputs off the common path: a repeated label ends the loop of lines
  173-179 with \<^verbatim>\<open>AttributeError\<close>, a table of \<^verbatim>\<open>int64\<close> and \<^verbatim>\<open>float64\<close> columns
  gives its integers as floats, and \<^verbatim>\<open>bytes\<close> that are UTF-8 are decoded.
\<close>

lemma prepared_twin_frame: "prepared twin_frame = Inl no_tolist"
  by (simp add: prepared_def twin_frame_def date_cols_def replace_na_def where_notnull_def
        map_object_cells_def)

lemma frame_values_numeric_frame:
  "frame_values numeric_frame = [[FloatOfInt 2, Obj (PFloat ''0.5'')]]"
  by (simp add: frame_values_def numeric_frame_def upcasts_def)

lemma astype_str_bytes:
  "astype_str \<lparr> col_name = ''b'', col_dtype = Object, col_cells = [PBytes (Inr ''ab'')] \<rparr> =
     Inr \<lparr> col_name = ''b'', col_dtype = Object, col_cells = [PStr ''ab''] \<rparr>"
  by (simp add: astype_str_def)

text \<open>
  Claim C7 at a table with a \<^verbatim>\<open>VARBINARY\<close> column.  The trial encoding of the column
  raises \<^verbatim>\<open>TypeError\<close>, and the conversion of line 179 then decodes the \<^verbatim>\<open>bytes\<close>
  object and raises \<^verbatim>\<open>UnicodeDecodeError\<close>, which nothing catches: the function returns
  no table, where the claim and the docstring (``converts any non-serializable values to
  strings'', ``all values JSON-serializable'') promise one for every input.
\<close>

theorem prepare_raises_on_undecodable_bytes:
  "fst (prepare_dataframe_for_sheets 0 (world_with bytes_frame)) =
     Inl (UnicodeDecodeError cannot_decode_0xff)"
  by (simp add: prepare_dataframe_for_sheets_eq world_with_def bytes_frame_def date_cols_def
        replace_na_def where_notnull_def map_object_cells_def dumps_list_def
        not_serializable_def astype_str_def)

text \<open>
  Claim C8 at a table with a null in a \<^verbatim>\<open>float64\<close> column, in a column of \<^verbatim>\<open>Decimal\<close>
  objects and in a datetime column.  The round trip succeeds, the timestamp comes back as
  its text and the integers unchanged, but none of the three nulls comes back as the
  absence marker: not-a-number stays in the \<^verbatim>\<open>float64\<close> column (line 170 does not
  change it), and the other two come back as the texts \<open>''None''\<close> and \<open>''NaT''\<close> that
  \<^verbatim>\<open>astype(str)\<close> made of them (lines 179 and 166).
\<close>

theorem roundtrip_nulls_not_absent:
  "roundtrip nulls_frame =
     Inr [[Obj (PFloat ''1.5''), Obj (PStr ''2.5''), Obj (PStr ''2024-01-02''), Obj (PInt 42)],
          [Obj (PFloat ''nan''), Obj (PStr ''None''), Obj (PStr ''NaT''), Obj (PInt 7)]]"
  by (simp add: roundtrip_def prepared_nulls_frame frame_values_def upcasts_def upt_0_2 loads_rows_def)

text \<open>
  Claim C9.  Whether \<^verbatim>\<open>prepare_dataframe_for_sheets\<close> returns or raises, every object
  that existed before the call is as it was, the table it was given among them; what it
  returns is a new object, which holds the table computed.
\<close>

theorem prepare_leaves_input_unchanged:
  assumes "df < length (frames w)"
  shows "\<exists>r w'. prepare_dataframe_for_sheets df w = (r, w')
       \<and> frames w' ! df = frames w ! df
       \<and> (\<forall>a<length (frames w). frames w' ! a = frames w ! a)
       \<and> (\<forall>p. r = Inr p \<longrightarrow>
            length (frames w) \<le> p \<and> p < length (frames w')
            \<and> prepared (frames w ! df) = Inr (frames w' ! p))"
proof -
  obtain r w' where p: "prepare_dataframe_for_sheets df w = (r, w')"
    by (cases "prepare_dataframe_for_sheets df w")
  from prepare_outcome [OF p] obtain fs where
    w': "w' = w\<lparr> frames := frames w @ fs \<rparr>"
    and r: "case r of
              Inl e \<Rightarrow> prepared (frames w ! df) = Inl e
            | Inr p \<Rightarrow> p = length (frames w) + 2 \<and> length fs = 3
                        \<and> prepared (frames w ! df) = Inr (fs ! 2)"
    by blast
  show ?thesis
  proof (intro exI [of _ r] exI [of _ w'] conjI allI impI)
    show "prepare_dataframe_for_sheets df w = (r, w')" by (rule p)
    show "frames w' ! df = frames w ! df" using assms w' by (simp add: nth_append)
  next
    fix a assume "a < length (frames w)"
    then show "frames w' ! a = frames w ! a" using w' by (simp add: nth_append)
  next
    fix p assume "r = Inr p"
    with r have h: "p = length (frames w) + 2" "length fs = 3"
      "prepared (frames w ! df) = Inr (fs ! 2)" by simp_all
    show "length (frames w) \<le> p" using h(1) by simp
    show "p < length (frames w')" using h(1,2) w' by simp
    show "prepared (frames w ! df) = Inr (frames w' ! p)" using h w' by (simp add: nth_append)
  qed
qed

text \<open>
  The table of one row is unchanged at address 0, and the result, at a new address, differs
  from it.
\<close>

theorem prepare_leaves_input_unchanged_witness:
  "fst (prepare_dataframe_for_sheets 0 (world_with small_frame)) = Inr 3
   \<and> frames (snd (prepare_dataframe_for_sheets 0 (world_with small_frame))) ! 0 = small_frame
   \<and> frames (snd (prepare_dataframe_for_sheets 0 (world_with small_frame))) ! 3 \<noteq> small_frame"
proof -
  have a: "0 < length (frames (world_with small_frame))" by (simp add: world_with_def)
  have f0: "frames (world_with small_frame) ! 0 = small_frame"
    and l: "length (frames (world_with small_frame)) = 1"
    by (simp_all add: world_with_def)
  from prepare_leaves_input_unchanged [OF a]
  obtain r w' where h: "prepare_dataframe_for_sheets 0 (world_with small_frame) = (r, w')"
    "frames w' ! 0 = frames (world_with small_frame) ! 0"
    "\<forall>p. r = Inr p \<longrightarrow>
            length (frames (world_with small_frame)) \<le> p \<and> p < length (frames w')
            \<and> prepared (frames (world_with small_frame) ! 0) = Inr (frames w' ! p)"
    by blast
  from prepare_outcome [OF h(1)] l have r: "r = Inr 3"
    by (cases r) (auto simp: f0 prepared_small_frame)
  with h(3) have "prepared small_frame = Inr (frames w' ! 3)" by (simp add: f0)
  then have "frames w' ! 3 \<noteq> small_frame"
    unfolding prepared_small_frame by (auto simp: small_frame_def)
  with h r show ?thesis by (simp add: f0)
qed

section \<open>The results at concrete inputs\<close>

text \<open>
  A table of one row, written with one request.
\<close>

theorem write_small_table_single_overwrite_witness:
  "fst (write_dataframe_to_sheet srv_ok ''sheet-1'' 0 (world_with small_frame)) = Inr ()
   \<and> requests (snd (write_dataframe_to_sheet srv_ok ''sheet-1'' 0 (world_with small_frame))) =
       [ValuesUpdate ''sheet-1'' (Sheet1_A 1)
          [[Obj (PStr ''note''), Obj (PStr ''seen''), Obj (PStr ''count'')],
          [Obj PNone, Obj (PStr ''2024-01-02''), Obj (PInt 42)]]]
   \<and> sheets (snd (write_dataframe_to_sheet srv_ok ''sheet-1'' 0 (world_with small_frame))) ''sheet-1'' =
       [[Obj (PStr ''note''), Obj (PStr ''seen''), Obj (PStr ''count'')],
          [Obj PNone, Obj (PStr ''2024-01-02''), Obj (PInt 42)]]"
proof -
  let ?vals = "[[Obj (PStr ''note''), Obj (PStr ''seen''), Obj (PStr ''count'')],
          [Obj PNone, Obj (PStr ''2024-01-02''), Obj (PInt 42)]]"
  let ?g = "\<lparr> nrows = 1,
       columns = [\<lparr> col_name = ''note'', col_dtype = Object, col_cells = [PNone] \<rparr>,
                  \<lparr> col_name = ''seen'', col_dtype = Object, col_cells = [PStr ''2024-01-02''] \<rparr>,
                  \<lparr> col_name = ''count'', col_dtype = Int64, col_cells = [PInt 42] \<rparr>] \<rparr>"
  have p: "prepared (frames (world_with small_frame) ! 0) = Inr ?g"
    by (simp add: world_with_def prepared_small_frame)
  have a: "?vals = table_values ?g"
    by (simp only: table_values_small_frame)
  have b: "length ?vals \<le> BATCH_SIZE" by (simp add: BATCH_SIZE_def)
  have c: "srv_ok (length (requests (world_with small_frame))) = Replies \<lparr> spreadsheetId = None, parents = None \<rparr>"
    by (simp add: srv_ok_def)
  from write_small_table_single_overwrite [OF p a b, of srv_ok "''sheet-1''"] c
  show ?thesis by (simp add: world_with_def empty_world_def)
qed

text \<open>
  The three operations against a service that fails every second request.
\<close>

theorem retry_budget_witness:
  "length (requests (snd (create_google_sheet srv_update_unavailable ''export'' (world_with small_frame)))) \<le> 5
   \<and> sum_list (sleeps (snd (create_google_sheet srv_update_unavailable ''export'' (world_with small_frame)))) \<le> 15
   \<and> length (requests (snd (move_sheet_to_folder srv_update_unavailable ''file-1'' ''folder-1''
         (world_with small_frame)))) \<le> 10
   \<and> sum_list (sleeps (snd (move_sheet_to_folder srv_update_unavailable ''file-1'' ''folder-1''
         (world_with small_frame)))) \<le> 15
   \<and> length (requests (snd (write_dataframe_to_sheet srv_update_unavailable ''sheet-1'' 0
         (world_with small_frame)))) \<le> 5
   \<and> sum_list (sleeps (snd (write_dataframe_to_sheet srv_update_unavailable ''sheet-1'' 0
         (world_with small_frame)))) \<le> 15"
proof -
  let ?w = "world_with small_frame"
  have e: "requests ?w = []" "sleeps ?w = []" by (simp_all add: world_with_def empty_world_def)
  have nb: "(case prepared (frames ?w ! 0) of
               Inl e \<Rightarrow> 0
             | Inr g \<Rightarrow> if BATCH_SIZE < length (table_values g)
                        then length (make_batches (table_values g)) else 1) = 1"
    by (simp add: world_with_def prepared_small_frame length_table_values BATCH_SIZE_def)
  note b = retry_budget [of srv_update_unavailable "''export''" ?w "''file-1''" "''folder-1''" 0 "''sheet-1''"]
  from b obtain j1 new1 where 1: "j1 < MAX_RETRIES" "length new1 \<le> j1 + 1"
     "requests (snd (create_google_sheet srv_update_unavailable ''export'' ?w)) = requests ?w @ new1"
     "sleeps (snd (create_google_sheet srv_update_unavailable ''export'' ?w)) =
           sleeps ?w @ map (\<lambda>k. INITIAL_RETRY_DELAY * 2 ^ k) [0..<j1]"
     "sum_list (map (\<lambda>k. INITIAL_RETRY_DELAY * 2 ^ k) [0..<j1]) \<le> 15"
    by blast
  from b obtain j2 new2 where 2: "j2 < MAX_RETRIES" "length new2 \<le> 2 * (j2 + 1)"
     "requests (snd (move_sheet_to_folder srv_update_unavailable ''file-1'' ''folder-1'' ?w)) = requests ?w @ new2"
     "sleeps (snd (move_sheet_to_folder srv_update_unavailable ''file-1'' ''folder-1'' ?w)) =
           sleeps ?w @ map (\<lambda>k. INITIAL_RETRY_DELAY * 2 ^ k) [0..<j2]"
     "sum_list (map (\<lambda>k. INITIAL_RETRY_DELAY * 2 ^ k) [0..<j2]) \<le> 15"
    by blast
  from b obtain j3 new3 where 3: "j3 < MAX_RETRIES" "length new3 \<le> 1 * (j3 + 1)"
     "requests (snd (write_dataframe_to_sheet srv_update_unavailable ''sheet-1'' 0 ?w)) = requests ?w @ new3"
     "sleeps (snd (write_dataframe_to_sheet srv_update_unavailable ''sheet-1'' 0 ?w)) =
           sleeps ?w @ map (\<lambda>k. INITIAL_RETRY_DELAY * 2 ^ k) [0..<j3]"
     "sum_list (map (\<lambda>k. INITIAL_RETRY_DELAY * 2 ^ k) [0..<j3]) \<le> 15"
    unfolding nb by auto
  from 1 2 3 show ?thesis
    unfolding e by (simp add: MAX_RETRIES_def)
qed

text \<open>
  The scenario of the claim: 5200 data rows and the header give two requests, an overwrite
  with the header and 4999 data rows and an append with the remaining 201.
\<close>

theorem write_large_table_in_batches_witness:
  "fst (write_dataframe_to_sheet srv_ok ''sheet-1'' 0 (world_with (big_frame 5200))) = Inr ()
   \<and> requests (snd (write_dataframe_to_sheet srv_ok ''sheet-1'' 0 (world_with (big_frame 5200)))) =
       [ValuesUpdate ''sheet-1'' (Sheet1_A 1) ([Obj (PStr ''id'')] # map (\<lambda>i. [Obj (PInt (int i))]) [0..<4999]),
        ValuesAppend ''sheet-1'' (Sheet1_A 5001) (map (\<lambda>i. [Obj (PInt (int i))]) [4999..<5200])]
   \<and> sheets (snd (write_dataframe_to_sheet srv_ok ''sheet-1'' 0 (world_with (big_frame 5200)))) ''sheet-1'' =
       [Obj (PStr ''id'')] # map (\<lambda>i. [Obj (PInt (int i))]) [0..<5200]"
proof -
  let ?w = "world_with (big_frame 5200)"
  let ?vals = "[Obj (PStr ''id'')] # map (\<lambda>i. [Obj (PInt (int i))]) [0..<5200]"
  have p: "prepared (frames ?w ! 0) = Inr (big_frame 5200)"
    by (simp add: world_with_def prepared_big_frame)
  have a: "?vals = table_values (big_frame 5200)"
    by (simp only: table_values_big_frame)
  have len: "length ?vals = 5201" by simp
  have b: "BATCH_SIZE < length ?vals" unfolding len by (simp add: BATCH_SIZE_def)
  have n: "(length ?vals + BATCH_SIZE - 1) div BATCH_SIZE = 2"
    unfolding len by (simp add: BATCH_SIZE_def)
  have c: "\<forall>i < (length ?vals + BATCH_SIZE - 1) div BATCH_SIZE.
             \<exists>r. srv_ok (length (requests ?w) + i) = Replies r"
    by (simp add: srv_ok_def)
  from write_large_table_in_batches [OF p a b c, of "''sheet-1''"]
  obtain w' calls where h:
    "write_dataframe_to_sheet srv_ok ''sheet-1'' 0 ?w = (Inr (), w')"
    "requests w' = requests ?w @ calls"
    "length calls = (length ?vals + BATCH_SIZE - 1) div BATCH_SIZE"
    "calls ! 0 = ValuesUpdate ''sheet-1'' (Sheet1_A 1) (take BATCH_SIZE ?vals)"
    "\<forall>i. 0 < i \<and> i < length calls \<longrightarrow>
         calls ! i = ValuesAppend ''sheet-1'' (Sheet1_A (i * BATCH_SIZE + 1))
                           (take BATCH_SIZE (drop (i * BATCH_SIZE) ?vals))"
    "sheets ?w ''sheet-1'' = [] \<longrightarrow> sheets w' ''sheet-1'' = ?vals"
    by blast
  from h(3) n have l2: "length calls = 2" by simp
  from h(5) l2 have c1: "calls ! 1 = ValuesAppend ''sheet-1'' (Sheet1_A (1 * BATCH_SIZE + 1))
                           (take BATCH_SIZE (drop (1 * BATCH_SIZE) ?vals))"
    by simp
  have t0: "take BATCH_SIZE ?vals = [Obj (PStr ''id'')] # map (\<lambda>i. [Obj (PInt (int i))]) [0..<4999]"
    by (simp add: BATCH_SIZE_def take_map)
  have t1: "take BATCH_SIZE (drop (1 * BATCH_SIZE) ?vals) = map (\<lambda>i. [Obj (PInt (int i))]) [4999..<5200]"
    by (simp add: BATCH_SIZE_def drop_map)
  have "calls = [calls ! 0, calls ! 1]" using l2 by (rule list_of_length_2)
  with h(4) c1 have calls: "calls =
       [ValuesUpdate ''sheet-1'' (Sheet1_A 1) ([Obj (PStr ''id'')] # map (\<lambda>i. [Obj (PInt (int i))]) [0..<4999]),
        ValuesAppend ''sheet-1'' (Sheet1_A 5001) (map (\<lambda>i. [Obj (PInt (int i))]) [4999..<5200])]"
    unfolding t0 t1 by (simp add: BATCH_SIZE_def)
  have e: "requests ?w = []" "sheets ?w ''sheet-1'' = []"
    by (simp_all add: world_with_def empty_world_def)
  from h(1) h(2) h(6) calls e show ?thesis by simp
qed

text \<open>
  Three batches, the third request fails: the 5000 rows of the second batch are in the
  sheet twice.
\<close>

theorem write_batches_retry_repeats_appends_witness:
  "fst (write_dataframe_to_sheet srv_third_unavailable ''sheet-1'' 0 (world_with (big_frame 10000))) = Inr ()
   \<and> requests (snd (write_dataframe_to_sheet srv_third_unavailable ''sheet-1'' 0 (world_with (big_frame 10000)))) =
       [ValuesUpdate ''sheet-1'' (Sheet1_A 1) ([Obj (PStr ''id'')] # map (\<lambda>i. [Obj (PInt (int i))]) [0..<4999]),
        ValuesAppend ''sheet-1'' (Sheet1_A 5001) (map (\<lambda>i. [Obj (PInt (int i))]) [4999..<9999]),
        ValuesAppend ''sheet-1'' (Sheet1_A 10001) (map (\<lambda>i. [Obj (PInt (int i))]) [9999..<10000]),
        ValuesUpdate ''sheet-1'' (Sheet1_A 1) ([Obj (PStr ''id'')] # map (\<lambda>i. [Obj (PInt (int i))]) [0..<4999]),
        ValuesAppend ''sheet-1'' (Sheet1_A 5001) (map (\<lambda>i. [Obj (PInt (int i))]) [4999..<9999]),
        ValuesAppend ''sheet-1'' (Sheet1_A 10001) (map (\<lambda>i. [Obj (PInt (int i))]) [9999..<10000])]
   \<and> sleeps (snd (write_dataframe_to_sheet srv_third_unavailable ''sheet-1'' 0 (world_with (big_frame 10000)))) = [1]
   \<and> sheets (snd (write_dataframe_to_sheet srv_third_unavailable ''sheet-1'' 0 (world_with (big_frame 10000))))
        ''sheet-1'' =
       ([Obj (PStr ''id'')] # map (\<lambda>i. [Obj (PInt (int i))]) [0..<4999]) @ map (\<lambda>i. [Obj (PInt (int i))]) [4999..<9999]
         @ map (\<lambda>i. [Obj (PInt (int i))]) [4999..<9999] @ map (\<lambda>i. [Obj (PInt (int i))]) [9999..<10000]"
proof -
  let ?w = "world_with (big_frame 10000)"
  let ?vals = "[Obj (PStr ''id'')] # map (\<lambda>i. [Obj (PInt (int i))]) [0..<10000]"
  let ?c0 = "[Obj (PStr ''id'')] # map (\<lambda>i. [Obj (PInt (int i))]) [0..<4999]"
  let ?c1 = "map (\<lambda>i. [Obj (PInt (int i))]) [4999..<9999]"
  let ?c2 = "map (\<lambda>i. [Obj (PInt (int i))]) [9999..<10000]"
  have e: "requests ?w = []" "sleeps ?w = []" "sheets ?w ''sheet-1'' = []"
    by (simp_all add: world_with_def empty_world_def)
  have p: "prepared (frames ?w ! 0) = Inr (big_frame 10000)"
    by (simp add: world_with_def prepared_big_frame)
  have a: "?vals = table_values (big_frame 10000)"
    by (simp only: table_values_big_frame)
  have len: "length ?vals = 10001" by (simp del: upt_rec_numeral)
  have b: "BATCH_SIZE < length ?vals" unfolding len by (simp add: BATCH_SIZE_def)
  have n: "(length ?vals + BATCH_SIZE - 1) div BATCH_SIZE = 3"
    unfolding len by (simp add: BATCH_SIZE_def)
  have t0: "take BATCH_SIZE (drop (0 * BATCH_SIZE) ?vals) = ?c0"
    by (simp add: BATCH_SIZE_def take_map del: upt_rec_numeral)
  have t1: "take BATCH_SIZE (drop (1 * BATCH_SIZE) ?vals) = ?c1"
    by (simp add: BATCH_SIZE_def take_map drop_map del: upt_rec_numeral)
  have t2: "take BATCH_SIZE (drop (2 * BATCH_SIZE) ?vals) = ?c2"
    by (simp add: BATCH_SIZE_def take_map drop_map del: upt_rec_numeral)
  have mb: "make_batches ?vals = [?c0, ?c1, ?c2]"
    unfolding make_batches_eq n upt_0_3 list.map t0 t1 t2 ..
  have br: "batch_requests ''sheet-1'' ?vals =
              [ValuesUpdate ''sheet-1'' (Sheet1_A 1) ?c0,
               ValuesAppend ''sheet-1'' (Sheet1_A 5001) ?c1,
               ValuesAppend ''sheet-1'' (Sheet1_A 10001) ?c2]"
    unfolding batch_requests_eq n upt_0_3 list.map t0 t1 t2 by (simp add: BATCH_SIZE_def del: upt_rec_numeral)
  have c: "2 < length (make_batches ?vals)" unfolding mb by (simp del: upt_rec_numeral)
  have d: "\<forall>i<2. \<exists>r. srv_third_unavailable (length (requests ?w) + i) = Replies r"
    unfolding e by (simp add: srv_third_unavailable_def)
  have f: "srv_third_unavailable (length (requests ?w) + 2) = Raises (HttpError 503 ''unavailable'')"
    unfolding e by (simp add: srv_third_unavailable_def)
  have g: "(503::nat) \<in> {429, 500, 502, 503, 504}" by simp
  have h: "\<forall>i < length (make_batches ?vals).
             \<exists>r. srv_third_unavailable (length (requests ?w) + 2 + 1 + i) = Replies r"
    unfolding e by (simp add: srv_third_unavailable_def)
  from write_batches_retry_repeats_appends [OF p a b c d f g h, of "''sheet-1''"]
  obtain w' where r:
    "write_dataframe_to_sheet srv_third_unavailable ''sheet-1'' 0 ?w = (Inr (), w')"
    "requests w' = requests ?w @ take (2 + 1) (batch_requests ''sheet-1'' ?vals)
                                  @ batch_requests ''sheet-1'' ?vals"
    "sleeps w' = sleeps ?w @ [INITIAL_RETRY_DELAY]"
    "sheets ?w ''sheet-1'' = [] \<longrightarrow>
            sheets w' ''sheet-1'' =
              concat (take 2 (make_batches ?vals)) @ concat (drop (min 1 2) (make_batches ?vals))"
    by blast
  from r(2) have rq: "requests w' =
       [ValuesUpdate ''sheet-1'' (Sheet1_A 1) ?c0, ValuesAppend ''sheet-1'' (Sheet1_A 5001) ?c1,
        ValuesAppend ''sheet-1'' (Sheet1_A 10001) ?c2,
        ValuesUpdate ''sheet-1'' (Sheet1_A 1) ?c0, ValuesAppend ''sheet-1'' (Sheet1_A 5001) ?c1,
        ValuesAppend ''sheet-1'' (Sheet1_A 10001) ?c2]"
    unfolding br e by (simp del: upt_rec_numeral)
  from r(3) have sl: "sleeps w' = [1]" unfolding e by (simp add: INITIAL_RETRY_DELAY_def)
  from r(4) e(3) have sh: "sheets w' ''sheet-1'' = ?c0 @ ?c1 @ ?c1 @ ?c2"
    unfolding mb by (simp del: upt_rec_numeral)
  from r(1) rq sl sh show ?thesis by (simp del: upt_rec_numeral)
qed

end
